theory Spec2Isabelle
  imports Main "HOL-Library.Word"
begin

unbundle bit_operations_syntax

section \<open>SoundBored: the pad component of src/lib/Soundbored.svelte\<close>

text \<open>
  The component is one Svelte script: module-level variables mutated by event handlers.
  The embedding makes the variables one record \<open>State\<close>, and every handler a function
  from the state (and the event's payload) to the new state. JavaScript numbers that the
  code only uses as integers are \<open>int\<close>; MIDI bytes (a \<open>Uint8Array\<close>) are \<open>8 word\<close>.
\<close>

subsection \<open>JavaScript arithmetic and number formatting\<close>

text \<open>
  \<open>a % b\<close> in JavaScript truncates towards zero: the result has the sign of \<open>a\<close>.
  HOL's \<open>mod\<close> on \<open>int\<close> has the sign of \<open>b\<close>, so the operator is written out.
  The code only divides by the constants 12, 360, 2 and 8, so the \<open>NaN\<close> of a zero
  divisor does not arise.
\<close>

definition jsRem :: "int \<Rightarrow> int \<Rightarrow> int" where
  "jsRem a b = sgn a * (\<bar>a\<bar> mod \<bar>b\<bar>)"

definition digitChar :: "nat \<Rightarrow> char" where
  "digitChar d = ''0123456789'' ! d"

text \<open>The decimal digits of a natural number, most significant first.\<close>

fun natToString :: "nat \<Rightarrow> string" where
  "natToString n =
     (if n < 10 then [digitChar n] else natToString (n div 10) @ [digitChar (n mod 10)])"

declare natToString.simps [simp del]

text \<open>
  What a template literal \<open>`${n}`\<close> prints for an integer-valued number: the decimal
  digits, with a leading minus sign below zero.
\<close>

definition numberToString :: "int \<Rightarrow> string" where
  "numberToString n = (if n < 0 then CHR ''-'' # natToString (nat (- n)) else natToString (nat n))"

subsection \<open>Constants: colour schemes and grid sizes\<close>

text \<open>
  \<open>COLOR_SCHEMES\<close> maps names to the strings the selector delivers; \<open>getPadColor\<close>
  switches on the string and has a \<open>default\<close> branch, so the scheme stays a string.
\<close>

definition RAINBOW :: string where "RAINBOW = ''rainbow''"
definition MUSIC_THEORY :: string where "MUSIC_THEORY = ''music-theory''"
definition CHECKERBOARD :: string where "CHECKERBOARD = ''checkerboard''"
definition NEON_GLOW :: string where "NEON_GLOW = ''neon-glow''"
definition MPC :: string where "MPC = ''mpc''"
definition MIDNIGHT :: string where "MIDNIGHT = ''midnight''"

text \<open>
  \<open>GRID_SIZES\<close> is the enumeration of the seven keys of \<open>GRID_DIMENSIONS\<close>. The
  variable \<open>selectedGridSize\<close> is declared with the type \<open>GridSize\<close> and
  \<open>initializePads\<close> reads the table without a fallback, so the key is a datatype and the
  table a total function.
\<close>

datatype GridSize = GRID_3X3 | GRID_4X4 | GRID_5X5 | GRID_6X6 | GRID_7X7 | GRID_8X8 | GRID_12X2

record Dimensions =
  rows :: int
  cols :: int

fun GRID_DIMENSIONS :: "GridSize \<Rightarrow> Dimensions" where
  "GRID_DIMENSIONS GRID_3X3 = \<lparr>rows = 3, cols = 3\<rparr>"
| "GRID_DIMENSIONS GRID_4X4 = \<lparr>rows = 4, cols = 4\<rparr>"
| "GRID_DIMENSIONS GRID_5X5 = \<lparr>rows = 5, cols = 5\<rparr>"
| "GRID_DIMENSIONS GRID_6X6 = \<lparr>rows = 6, cols = 6\<rparr>"
| "GRID_DIMENSIONS GRID_7X7 = \<lparr>rows = 7, cols = 7\<rparr>"
| "GRID_DIMENSIONS GRID_8X8 = \<lparr>rows = 8, cols = 8\<rparr>"
| "GRID_DIMENSIONS GRID_12X2 = \<lparr>rows = 2, cols = 12\<rparr>"

subsection \<open>The data model\<close>

text \<open>
  A pad object. The fields \<open>id\<close> and \<open>note\<close> of the source are \<open>id_pad\<close> and
  \<open>note_pad\<close> here (\<open>id\<close> is HOL's identity function, \<open>note\<close> a proof command).
  \<open>color\<close> is absent from the object \<open>initializePads\<close> pushes and added by
  \<open>applyColorScheme\<close>, hence an option.
\<close>

record Pad =
  id_pad :: int
  note_pad :: int
  soundFile :: string
  isActive :: bool
  isPressed :: bool
  row :: int
  col :: int
  noteName :: string
  hasCustomSound :: bool
  color :: "string option"

text \<open>
  An \<open>AudioBuffer\<close>. Its samples are floating point data the claims never read; the
  model keeps what identifies the buffer: the MIDI note a synthesized tone was computed for
  (frequency \<open>220 * 2 ^ ((note - 57) / 12)\<close>, half a second, two channels), or a handle
  of the decoded file contents.
\<close>

datatype AudioBuffer = SineTone int | Decoded nat

datatype ContextState = Suspended | Running | Closed

text \<open>
  A user-supplied \<open>File\<close>, with the outcome of \<open>file.arrayBuffer()\<close> followed by
  \<open>audioContext.decodeAudioData\<close>: \<open>Inl message\<close> when either promise rejects with an
  error of that message, \<open>Inr buffer\<close> when decoding succeeds.
\<close>

record File =
  fileName :: string
  decodeResult :: "string + AudioBuffer"

text \<open>
  The component's variables, and three parts of the platform the handlers act on:
  \<open>contextState\<close> and \<open>resumeCalls\<close> (the \<open>AudioContext\<close>'s state and the calls of
  \<open>resume()\<close> made on it), \<open>started\<close> (the buffers whose sources were started on the
  destination, oldest first) and \<open>timers\<close> (the \<open>padIndex\<close> captured by each pending
  \<open>setTimeout\<close> callback of \<open>releasePad\<close>, in the order they were scheduled; all have
  the same delay of 100 ms, so they fire in that order). \<open>audioContext\<close> is \<open>True\<close>
  when the variable holds a context and \<open>False\<close> when it is \<open>null\<close>. The MIDI device
  list and the modal's variables do not reach the pads or the bank and are left out.
\<close>

record State =
  pads :: "Pad list"
  error :: "string option"
  audioContext :: bool
  contextState :: ContextState
  resumeCalls :: nat
  audioBuffers :: "string \<rightharpoonup> AudioBuffer"
  audioInitialized :: bool
  selectedColorScheme :: string
  selectedGridSize :: GridSize
  gridTemplateColumns :: string
  customSoundNames :: "int \<rightharpoonup> string"
  started :: "AudioBuffer list"
  timers :: "int list"

subsection \<open>Note names and colours\<close>

definition noteNames :: "string list" where
  "noteNames = [''C'', ''C#'', ''D'', ''D#'', ''E'', ''F'', ''F#'', ''G'', ''G#'', ''A'', ''A#'', ''B'']"

text \<open>
  \<open>getNoteName\<close>: an index outside the array reads \<open>undefined\<close>, which the template
  literal prints as the word. \<open>Math.floor(midiNote / 12)\<close> is HOL's \<open>div\<close> on \<open>int\<close>.
\<close>

definition getNoteName :: "int \<Rightarrow> string" where
  "getNoteName midiNote =
     (let k = jsRem midiNote 12;
          name = (if 0 \<le> k \<and> k < 12 then noteNames ! nat k else ''undefined'');
          octave = midiNote div 12 - 1
      in name @ numberToString octave)"

definition synthwaveColors :: "string list" where
  "synthwaveColors = [''#0f1e45'', ''#1a2151'', ''#4a1e9e'', ''#7b2fbe'',
                      ''#e92efb'', ''#ff2a6d'', ''#1eaedb'', ''#00fff5'']"

text \<open>
  \<open>getPadColor\<close> reads the variable \<open>selectedColorScheme\<close>, passed here as \<open>scheme\<close>.
  The branches are in the order of the \<open>switch\<close>. In the last case an index outside the
  palette would read \<open>undefined\<close>, here \<open>None\<close>.
\<close>

definition getPadColor :: "string \<Rightarrow> Pad \<Rightarrow> string option" where
  "getPadColor scheme pad =
     (let noteValue = jsRem (note_pad pad) 12 in
      if scheme = RAINBOW then
        (let hue = jsRem (noteValue * 30 + row pad * 15) 360
         in Some (''hsl('' @ numberToString hue @ '', 85%, 65%)''))
      else if scheme = MUSIC_THEORY then
        (if noteValue = 0 then Some ''#FF5252''
         else if noteValue = 5 then Some ''#448AFF''
         else if noteValue = 7 then Some ''#69F0AE''
         else Some ''#9E9E9E'')
      else if scheme = CHECKERBOARD then
        (if jsRem (row pad + col pad) 2 = 0 then Some ''#212121'' else Some ''#616161'')
      else if scheme = NEON_GLOW then
        (let neonHue = jsRem (noteValue * 30) 360
         in Some (''hsl('' @ numberToString neonHue @ '', 100%, 65%)''))
      else if scheme = MPC then Some ''#424242''
      else if scheme = MIDNIGHT then
        (let colorIndex = jsRem (noteValue + row pad * 2) (int (length synthwaveColors))
         in if 0 \<le> colorIndex \<and> colorIndex < int (length synthwaveColors)
            then Some (synthwaveColors ! nat colorIndex) else None)
      else Some ''#616161'')"

definition applyColorScheme :: "State \<Rightarrow> State" where
  "applyColorScheme s =
     s\<lparr>pads := map (\<lambda>pad. pad\<lparr>color := getPadColor (selectedColorScheme s) pad\<rparr>) (pads s)\<rparr>"

definition updateGridLayout :: "State \<Rightarrow> State" where
  "updateGridLayout s =
     s\<lparr>gridTemplateColumns :=
         ''repeat('' @ numberToString (cols (GRID_DIMENSIONS (selectedGridSize s))) @ '', minmax(0, 1fr))''\<rparr>"

subsection \<open>Building the grid\<close>

text \<open>The object pushed by the inner loop of \<open>initializePads\<close>, with \<open>startNote = 36\<close>.\<close>

definition newPad :: "int \<Rightarrow> int \<Rightarrow> int \<Rightarrow> int \<Rightarrow> Pad" where
  "newPad rws cls rw cl =
     (let i = (rws - 1 - rw) * cls + cl;
          note = 36 + i
      in \<lparr>id_pad = i, note_pad = note, soundFile = ''default-sound-'' @ numberToString i,
          isActive = False, isPressed = False, row = rw, col = cl,
          noteName = getNoteName note, hasCustomSound = False, color = None\<rparr>)"

text \<open>\<open>for (let col = 0; col < cols; col++)\<close>, pushing onto \<open>initialPads\<close>.\<close>

function colLoop :: "int \<Rightarrow> int \<Rightarrow> int \<Rightarrow> int \<Rightarrow> Pad list \<Rightarrow> Pad list" where
  "colLoop rws cls rw cl initialPads =
     (if cl < cls then colLoop rws cls rw (cl + 1) (initialPads @ [newPad rws cls rw cl])
      else initialPads)"
  by pat_completeness auto
termination
  by (relation "measure (\<lambda>(rws, cls, rw, cl, initialPads). nat (cls - cl))") auto

declare colLoop.simps [simp del]

text \<open>\<open>for (let row = rows - 1; row >= 0; row--)\<close>.\<close>

function rowLoop :: "int \<Rightarrow> int \<Rightarrow> int \<Rightarrow> Pad list \<Rightarrow> Pad list" where
  "rowLoop rws cls rw initialPads =
     (if rw \<ge> 0 then rowLoop rws cls (rw - 1) (colLoop rws cls rw 0 initialPads)
      else initialPads)"
  by pat_completeness auto
termination
  by (relation "measure (\<lambda>(rws, cls, rw, initialPads). nat (rw + 1))") auto

declare rowLoop.simps [simp del]

definition initializePads :: "State \<Rightarrow> State" where
  "initializePads s =
     (let d = GRID_DIMENSIONS (selectedGridSize s);
          initialPads = rowLoop (rows d) (cols d) (rows d - 1) []
      in updateGridLayout (applyColorScheme (s\<lparr>pads := initialPads\<rparr>)))"

subsection \<open>The audio bank\<close>

text \<open>
  \<open>loadDefaultSounds\<close> has no \<open>await\<close>: it runs to its end when called. Its loop
  stores one synthesized buffer under each pad's \<open>soundFile\<close>. The \<open>catch\<close> branch
  is for an exception of \<open>createBuffer\<close>, which the platform does not raise for two
  channels and the context's own sample rate; the model has no such failure.
\<close>

definition loadDefaultSounds :: "State \<Rightarrow> Pad list \<Rightarrow> State" where
  "loadDefaultSounds s soundPads =
     (if \<not> audioContext s then s
      else foldl (\<lambda>s' pad. s'\<lparr>audioBuffers := (audioBuffers s')(soundFile pad \<mapsto> SineTone (note_pad pad))\<rparr>)
             s soundPads)"

text \<open>
  \<open>Array.prototype.findIndex\<close>: the index of the first element that satisfies the
  predicate, or \<open>-1\<close>.
\<close>

fun findIndex :: "('a \<Rightarrow> bool) \<Rightarrow> 'a list \<Rightarrow> int" where
  "findIndex P [] = - 1"
| "findIndex P (x # xs) = (if P x then 0 else (let r = findIndex P xs in if r < 0 then - 1 else r + 1))"

text \<open>
  \<open>loadCustomSound(file, padId)\<close>, with \<open>now\<close> the value \<open>Date.now()\<close> returns. The
  result is the new state and the value the promise resolves to (\<open>None\<close> for
  \<open>undefined\<close>). The test of \<open>audioContext\<close> runs when the call starts and the rest
  after the two awaits; \<open>audioContext\<close> is assigned in \<open>onMount\<close> only, so the function
  is applied to the state in which the continuation runs.
\<close>

definition customSoundId :: "int \<Rightarrow> int \<Rightarrow> string" where
  "customSoundId padId now = ''custom-sound-'' @ numberToString padId @ ''-'' @ numberToString now"

definition loadCustomSound :: "State \<Rightarrow> File \<Rightarrow> int \<Rightarrow> int \<Rightarrow> State \<times> bool option" where
  "loadCustomSound s file padId now =
     (if \<not> audioContext s then (s, None)
      else case decodeResult file of
        Inl message \<Rightarrow> (s\<lparr>error := Some (''Failed to load sound file: '' @ message)\<rparr>, Some False)
      | Inr audioBuffer \<Rightarrow>
          (let padIndex = findIndex (\<lambda>pad. id_pad pad = padId) (pads s) in
           if padIndex \<ge> 0 then
             (let soundId = customSoundId padId now
              in (s\<lparr>audioBuffers := (audioBuffers s)(soundId \<mapsto> audioBuffer),
                    pads := (pads s)[nat padIndex :=
                              (pads s ! nat padIndex)\<lparr>soundFile := soundId, hasCustomSound := True\<rparr>],
                    customSoundNames := (customSoundNames s)(padId \<mapsto> fileName file)\<rparr>,
                  Some True))
           else (s, Some True)))"

text \<open>
  \<open>playSound\<close>: \<open>resume()\<close> returns a promise and does not throw; starting a source
  appends its buffer to \<open>started\<close>.
\<close>

definition playSound :: "State \<Rightarrow> string \<Rightarrow> State" where
  "playSound s sound =
     (if \<not> audioContext s then s
      else
        (let s1 = (if contextState s \<noteq> Running then s\<lparr>resumeCalls := resumeCalls s + 1\<rparr> else s)
         in case audioBuffers s1 sound of
              None \<Rightarrow> s1
            | Some buffer \<Rightarrow> s1\<lparr>started := started s1 @ [buffer]\<rparr>))"

subsection \<open>Pressing and releasing pads\<close>

definition initAudio :: "State \<Rightarrow> State" where
  "initAudio s =
     (if \<not> audioInitialized s \<and> audioContext s then s\<lparr>resumeCalls := resumeCalls s + 1\<rparr> else s)"

definition triggerPad :: "State \<Rightarrow> int \<Rightarrow> State" where
  "triggerPad s note =
     (let s1 = initAudio s;
          padIndex = findIndex (\<lambda>pad. note_pad pad = note) (pads s1)
      in if padIndex \<ge> 0 then
           (let s2 = s1\<lparr>pads := (pads s1)[nat padIndex :=
                               (pads s1 ! nat padIndex)\<lparr>isActive := True, isPressed := True\<rparr>]\<rparr>
            in playSound s2 (soundFile (pads s2 ! nat padIndex)))
         else s1)"

text \<open>\<open>releasePad\<close> schedules the callback: its captured \<open>padIndex\<close> joins \<open>timers\<close>.\<close>

definition releasePad :: "State \<Rightarrow> int \<Rightarrow> State" where
  "releasePad s note =
     (let padIndex = findIndex (\<lambda>pad. note_pad pad = note) (pads s)
      in if padIndex \<ge> 0 then
           s\<lparr>pads := (pads s)[nat padIndex := (pads s ! nat padIndex)\<lparr>isPressed := False\<rparr>],
             timers := timers s @ [padIndex]\<rparr>
         else s)"

datatype JsError = TypeError

text \<open>
  The callback of the timer reads the variable \<open>pads\<close> when it runs. If the grid was
  rebuilt smaller meanwhile, \<open>pads[padIndex]\<close> is \<open>undefined\<close> and the assignment
  throws.
\<close>

definition decayTimeout :: "int \<Rightarrow> State \<Rightarrow> JsError + State" where
  "decayTimeout padIndex s =
     (if 0 \<le> padIndex \<and> padIndex < int (length (pads s))
      then Inr (s\<lparr>pads := (pads s)[nat padIndex := (pads s ! nat padIndex)\<lparr>isActive := False\<rparr>]\<rparr>)
      else Inl TypeError)"

text \<open>
  The oldest pending timer fires. An exception of the callback is reported by the
  platform and leaves the variables as they were.
\<close>

definition timerFires :: "State \<Rightarrow> State" where
  "timerFires s =
     (case timers s of
        [] \<Rightarrow> s
      | padIndex # rest \<Rightarrow>
          (case decayTimeout padIndex (s\<lparr>timers := rest\<rparr>) of
             Inl e \<Rightarrow> s\<lparr>timers := rest\<rparr>
           | Inr s' \<Rightarrow> s'))"

text \<open>
  \<open>handleMIDIMessage\<close> on the bytes of \<open>message.data\<close>. With fewer than three bytes
  \<open>velocity\<close> is \<open>undefined\<close> and \<open>velocity > 0\<close> is false; with fewer than two
  \<open>note\<close> is \<open>undefined\<close>, which equals no pad's note, so nothing changes.
\<close>

fun handleMIDIMessage :: "State \<Rightarrow> 8 word list \<Rightarrow> State" where
  "handleMIDIMessage s (status # note # velocity # rest) =
     (if status AND 0xf0 = 0x90 then
        (if uint velocity > 0 then triggerPad s (uint note) else releasePad s (uint note))
      else if status AND 0xf0 = 0x80 then releasePad s (uint note)
      else s)"
| "handleMIDIMessage s [status, note] =
     (if status AND 0xf0 = 0x90 then releasePad s (uint note)
      else if status AND 0xf0 = 0x80 then releasePad s (uint note)
      else s)"
| "handleMIDIMessage s [status] = s"
| "handleMIDIMessage s [] = s"

text \<open>
  \<open>handleGlobalMouseUp\<close> and \<open>handleGlobalTouchEnd\<close> have the same body. \<open>forEach\<close>
  walks the array it was called on while \<open>releasePad\<close> replaces \<open>pads\<close> by shallow
  copies: the objects are shared and keep their positions, so the pad visited at index
  \<open>k\<close> is \<open>pads ! k\<close> of the current state.
\<close>

definition handleGlobalMouseUp :: "State \<Rightarrow> State" where
  "handleGlobalMouseUp s =
     foldl (\<lambda>s' k. if isPressed (pads s' ! k) then releasePad s' (note_pad (pads s' ! k)) else s')
       s [0 ..< length (pads s)]"

subsection \<open>Configuration changes and start-up\<close>

definition handleColorSchemeChange :: "State \<Rightarrow> string \<Rightarrow> State" where
  "handleColorSchemeChange s v = applyColorScheme (s\<lparr>selectedColorScheme := v\<rparr>)"

definition handleGridSizeChange :: "State \<Rightarrow> GridSize \<Rightarrow> State" where
  "handleGridSizeChange s v =
     (let s1 = initializePads (s\<lparr>selectedGridSize := v\<rparr>);
          s2 = loadDefaultSounds s1 (pads s1)
      in s2\<lparr>customSoundNames := Map.empty\<rparr>)"

text \<open>The initial values of the variables, before \<open>onMount\<close>.\<close>

definition initialState :: State where
  "initialState =
     \<lparr>pads = [], error = None, audioContext = False, contextState = Suspended, resumeCalls = 0,
      audioBuffers = Map.empty, audioInitialized = False, selectedColorScheme = RAINBOW,
      selectedGridSize = GRID_4X4, gridTemplateColumns = ''repeat(4, minmax(0, 1fr))'',
      customSoundNames = Map.empty, started = [], timers = []\<rparr>"

text \<open>
  \<open>onMount\<close>: \<open>created\<close> is the state the platform gives the new \<open>AudioContext\<close>,
  \<open>midiSupported\<close> whether \<open>navigator.requestMIDIAccess\<close> exists.
\<close>

definition onMount :: "ContextState \<Rightarrow> bool \<Rightarrow> State \<Rightarrow> State" where
  "onMount created midiSupported s =
     (let s1 = s\<lparr>audioContext := True, contextState := created\<rparr>;
          s2 = (if midiSupported then s1
                else s1\<lparr>error := Some ''WebMIDI is not supported in your browser. Try using Chrome or Edge.''\<rparr>);
          s3 = initializePads s2
      in loadDefaultSounds s3 (pads s3))"

text \<open>
  The events that reach the pads and the bank after \<open>onMount\<close>: a pointer or touch press
  on a pad calls \<open>triggerPad\<close> with that pad's note, a MIDI message arrives, the pointer
  is lifted anywhere, a selector changes, a file finishes decoding, the oldest decay timer
  fires, a \<open>resume()\<close> promise of \<open>initAudio\<close> resolves, or the request for MIDI access
  is rejected.
\<close>

datatype Event =
    PadDown nat
  | MidiMessage "8 word list"
  | GlobalUp
  | ColorSchemeChange string
  | GridSizeChange GridSize
  | CustomSound File int int
  | TimerFires
  | ResumeResolved
  | MidiRejected

fun step :: "State \<Rightarrow> Event \<Rightarrow> State" where
  "step s (PadDown k) = (if k < length (pads s) then triggerPad s (note_pad (pads s ! k)) else s)"
| "step s (MidiMessage data) = handleMIDIMessage s data"
| "step s GlobalUp = handleGlobalMouseUp s"
| "step s (ColorSchemeChange v) = handleColorSchemeChange s v"
| "step s (GridSizeChange v) = handleGridSizeChange s v"
| "step s (CustomSound file padId now) = fst (loadCustomSound s file padId now)"
| "step s TimerFires = timerFires s"
| "step s ResumeResolved = s\<lparr>audioInitialized := True, contextState := Running\<rparr>"
| "step s MidiRejected =
     s\<lparr>error := Some ''Failed to access MIDI devices. Please check your browser permissions.''\<rparr>"

definition run :: "State \<Rightarrow> Event list \<Rightarrow> State" where
  "run s events = foldl step s events"

subsection \<open>Auxiliary definitions for the proofs\<close>

text \<open>
  Closed forms of the two loops of \<open>initializePads\<close>: one visual row, the rows from
  \<open>n - 1\<close> down to \<open>0\<close>, and the list the loops build for given dimensions.
\<close>

definition gridRow :: "int \<Rightarrow> int \<Rightarrow> int \<Rightarrow> Pad list" where
  "gridRow rws cls rw = map (newPad rws cls rw) [0..cls - 1]"

fun rowsDown :: "int \<Rightarrow> int \<Rightarrow> nat \<Rightarrow> Pad list" where
  "rowsDown rws cls 0 = []"
| "rowsDown rws cls (Suc n) = gridRow rws cls (int n) @ rowsDown rws cls n"

definition builtPads :: "int \<Rightarrow> int \<Rightarrow> Pad list" where
  "builtPads rws cls = rowLoop rws cls (rws - 1) []"





text \<open>The component after start-up with a suspended audio context and MIDI support.\<close>

definition mountedState :: State where
  "mountedState = onMount Suspended True initialState"

text \<open>
  Reading a decimal string back, used to show that \<open>natToString\<close> is injective.
\<close>

definition digitValue :: "char \<Rightarrow> nat" where
  "digitValue c = of_char c - 48"

definition stringToNat :: "string \<Rightarrow> nat" where
  "stringToNat cs = foldl (\<lambda>a c. 10 * a + digitValue c) 0 cs"

text \<open>
  The fields of a pad that only \<open>initializePads\<close> sets, and the invariant that the
  pads have the geometry \<open>initializePads\<close> gives the selected grid size.
\<close>

definition geometry :: "Pad \<Rightarrow> int \<times> int \<times> int \<times> int" where
  "geometry p = (id_pad p, note_pad p, row p, col p)"

definition gridBuilt :: "State \<Rightarrow> bool" where
  "gridBuilt s =
     (map geometry (pads s) =
      map geometry (builtPads (rows (GRID_DIMENSIONS (selectedGridSize s)))
                              (cols (GRID_DIMENSIONS (selectedGridSize s)))))"

text \<open>
  The pad id and the \<open>Date.now()\<close> value of every \<open>loadCustomSound\<close> continuation in
  a list of events, in order.
\<close>

fun customLoads :: "Event list \<Rightarrow> (int \<times> int) list" where
  "customLoads [] = []"
| "customLoads (CustomSound file padId now # es) = (padId, now) # customLoads es"
| "customLoads (e # es) = customLoads es"

section \<open>Properties\<close>

subsection \<open>Decimal strings and sound ids\<close>

lemma digitChar_cases:
  assumes "(d::nat) < 10"
  shows "d = 0 \<or> d = 1 \<or> d = 2 \<or> d = 3 \<or> d = 4 \<or> d = 5 \<or> d = 6 \<or> d = 7 \<or> d = 8 \<or> d = 9"
  using assms by arith

lemma digitValue_digitChar: "d < 10 \<Longrightarrow> digitValue (digitChar d) = d"
  using digitChar_cases [of d] by (auto simp: digitValue_def digitChar_def)

lemma digitChar_not_minus: "d < 10 \<Longrightarrow> digitChar d \<noteq> CHR ''-''"
  using digitChar_cases [of d] by (auto simp: digitChar_def)

lemma stringToNat_snoc: "stringToNat (cs @ [c]) = 10 * stringToNat cs + digitValue c"
  by (simp add: stringToNat_def)

lemma stringToNat_natToString: "stringToNat (natToString n) = n"
proof (induction n rule: natToString.induct)
  case (1 n)
  show ?case
  proof (cases "n < 10")
    case True
    then show ?thesis
      by (simp add: natToString.simps [of n] stringToNat_def digitValue_digitChar)
  next
    case False
    with 1 show ?thesis
      by (simp add: natToString.simps [of n] stringToNat_snoc digitValue_digitChar)
  qed
qed

lemma natToString_inj: "natToString a = natToString b \<Longrightarrow> a = b"
  by (metis stringToNat_natToString)

lemma natToString_no_minus: "CHR ''-'' \<notin> set (natToString n)"
proof (induction n rule: natToString.induct)
  case (1 n)
  show ?case
  proof (cases "n < 10")
    case True
    then show ?thesis
      using digitChar_not_minus [of n] by (simp add: natToString.simps [of n])
  next
    case False
    with 1 show ?thesis
      using digitChar_not_minus [of "n mod 10"] by (simp add: natToString.simps [of n])
  qed
qed

lemma numberToString_inj:
  assumes "0 \<le> a" "0 \<le> b" "numberToString a = numberToString b"
  shows "a = b"
proof -
  from assms have "natToString (nat a) = natToString (nat b)"
    by (simp add: numberToString_def)
  then have "nat a = nat b"
    by (rule natToString_inj)
  with assms show ?thesis by simp
qed

lemma numberToString_no_minus: "0 \<le> a \<Longrightarrow> CHR ''-'' \<notin> set (numberToString a)"
  by (simp add: numberToString_def natToString_no_minus)

lemma takeWhile_until: "x \<notin> set a \<Longrightarrow> takeWhile (\<lambda>c. c \<noteq> x) (a @ x # b) = a"
  by (induction a) auto

lemma split_at_minus:
  assumes "CHR ''-'' \<notin> set a" "CHR ''-'' \<notin> set a'" "a @ CHR ''-'' # b = a' @ CHR ''-'' # b'"
  shows "a = a' \<and> b = b'"
proof -
  have "takeWhile (\<lambda>c. c \<noteq> CHR ''-'') (a @ CHR ''-'' # b) = a"
    using assms(1) by (rule takeWhile_until)
  moreover have "takeWhile (\<lambda>c. c \<noteq> CHR ''-'') (a' @ CHR ''-'' # b') = a'"
    using assms(2) by (rule takeWhile_until)
  ultimately have "a = a'"
    using assms(3) by simp
  with assms(3) show ?thesis by simp
qed

lemma customSoundId_inj:
  assumes "0 \<le> padId" "0 \<le> now" "0 \<le> padId'" "0 \<le> now'"
    and "customSoundId padId now = customSoundId padId' now'"
  shows "padId = padId' \<and> now = now'"
proof -
  from assms(5)
  have "numberToString padId @ CHR ''-'' # numberToString now
      = numberToString padId' @ CHR ''-'' # numberToString now'"
    by (simp add: customSoundId_def)
  then have "numberToString padId = numberToString padId' \<and> numberToString now = numberToString now'"
    using assms(1,3) by (intro split_at_minus numberToString_no_minus)
  with assms show ?thesis
    by (simp add: numberToString_inj)
qed

lemma customSoundId_not_default: "customSoundId padId now \<noteq> ''default-sound-'' @ cs"
  by (simp add: customSoundId_def)

lemma natToString_nonempty: "natToString n \<noteq> []"
  by (cases "n < 10") (simp_all add: natToString.simps [of n])

lemma natToString_not_minus_head: "natToString n \<noteq> CHR ''-'' # cs"
proof
  assume "natToString n = CHR ''-'' # cs"
  then have "CHR ''-'' \<in> set (natToString n)"
    by simp
  with natToString_no_minus [of n] show False
    by simp
qed

lemma numberToString_inj_all:
  assumes "numberToString a = numberToString b"
  shows "a = b"
proof (cases "a < 0")
  case True
  show ?thesis
  proof (cases "b < 0")
    case b: True
    with True assms have "natToString (nat (- a)) = natToString (nat (- b))"
      by (simp add: numberToString_def)
    then have "nat (- a) = nat (- b)"
      by (rule natToString_inj)
    with True b show ?thesis by simp
  next
    case False
    with True assms have "natToString (nat b) = CHR ''-'' # natToString (nat (- a))"
      by (simp add: numberToString_def)
    with natToString_not_minus_head show ?thesis
      by blast
  qed
next
  case False
  show ?thesis
  proof (cases "b < 0")
    case True
    with False assms have "natToString (nat a) = CHR ''-'' # natToString (nat (- b))"
      by (simp add: numberToString_def)
    with natToString_not_minus_head show ?thesis
      by blast
  next
    case b: False
    with False assms show ?thesis
      by (intro numberToString_inj) simp_all
  qed
qed

lemma customSoundId_inj_all:
  assumes "customSoundId p t = customSoundId p' t'"
  shows "p = p' \<and> t = t'"
proof -
  from assms
  have e: "numberToString p @ CHR ''-'' # numberToString t
      = numberToString p' @ CHR ''-'' # numberToString t'"
    by (simp add: customSoundId_def)
  have "numberToString p = numberToString p' \<and> numberToString t = numberToString t'"
  proof (cases "p < 0")
    case True
    show ?thesis
    proof (cases "p' < 0")
      case p': True
      from e True p'
      have "natToString (nat (- p)) @ CHR ''-'' # numberToString t
          = natToString (nat (- p')) @ CHR ''-'' # numberToString t'"
        by (simp add: numberToString_def)
      then have "natToString (nat (- p)) = natToString (nat (- p')) \<and> numberToString t = numberToString t'"
        by (intro split_at_minus natToString_no_minus)
      with True p' show ?thesis
        by (simp add: numberToString_def)
    next
      case False
      obtain c cs where n: "natToString (nat p') = c # cs"
        using natToString_nonempty [of "nat p'"] by (cases "natToString (nat p')") auto
      with e True False have "c = CHR ''-''"
        by (simp add: numberToString_def)
      with n natToString_not_minus_head show ?thesis
        by blast
    qed
  next
    case False
    show ?thesis
    proof (cases "p' < 0")
      case True
      obtain c cs where n: "natToString (nat p) = c # cs"
        using natToString_nonempty [of "nat p"] by (cases "natToString (nat p)") auto
      with e True False have "c = CHR ''-''"
        by (simp add: numberToString_def)
      with n natToString_not_minus_head show ?thesis
        by blast
    next
      case p': False
      with False have "CHR ''-'' \<notin> set (numberToString p)" "CHR ''-'' \<notin> set (numberToString p')"
        by (simp_all add: numberToString_no_minus)
      from this e show ?thesis
        by (rule split_at_minus)
    qed
  qed
  then show ?thesis
    by (simp add: numberToString_inj_all)
qed

subsection \<open>The grid builder\<close>

lemma colLoop_eq: "colLoop rws cls rw cl acc = acc @ map (newPad rws cls rw) [cl..cls - 1]"
proof (induction rws cls rw cl acc rule: colLoop.induct)
  case (1 rws cls rw cl acc)
  show ?case
  proof (cases "cl < cls")
    case True
    then have "[cl..cls - 1] = cl # [cl + 1..cls - 1]"
      by (simp add: upto_rec1)
    with True 1 show ?thesis
      by (simp add: colLoop.simps [of rws cls rw cl acc])
  next
    case False
    then show ?thesis
      by (simp add: colLoop.simps [of rws cls rw cl acc])
  qed
qed

lemma rowLoop_eq: "rowLoop rws cls rw acc = acc @ rowsDown rws cls (nat (rw + 1))"
proof (induction rws cls rw acc rule: rowLoop.induct)
  case (1 rws cls rw acc)
  show ?case
  proof (cases "rw \<ge> 0")
    case True
    then have "nat (rw + 1) = Suc (nat rw)" by simp
    with True 1 show ?thesis
      by (simp add: rowLoop.simps [of rws cls rw acc] colLoop_eq gridRow_def)
  next
    case False
    then show ?thesis
      by (simp add: rowLoop.simps [of rws cls rw acc])
  qed
qed

lemma length_gridRow: "length (gridRow rws cls rw) = nat cls"
  by (simp add: gridRow_def)

lemma length_rowsDown: "0 \<le> cls \<Longrightarrow> length (rowsDown rws cls n) = n * nat cls"
  by (induction n) (simp_all add: length_gridRow)

lemma gridRow_nth: "0 \<le> c \<Longrightarrow> c < cls \<Longrightarrow> gridRow rws cls rw ! nat c = newPad rws cls rw c"
  by (simp add: gridRow_def)

lemma rowsDown_nth:
  "r < n \<Longrightarrow> c < nat cls \<Longrightarrow>
   rowsDown rws cls n ! ((n - 1 - r) * nat cls + c) = newPad rws cls (int r) (int c)"
proof (induction n)
  case 0
  then show ?case by simp
next
  case (Suc n)
  show ?case
  proof (cases "r = n")
    case True
    with Suc.prems show ?thesis
      using gridRow_nth [of "int c" cls rws "int n"]
      by (simp add: nth_append length_gridRow)
  next
    case False
    with Suc.prems have rn: "r < n" by simp
    then have "Suc n - 1 - r = Suc (n - 1 - r)"
      by simp
    then have "(Suc n - 1 - r) * nat cls + c = nat cls + ((n - 1 - r) * nat cls + c)"
      by simp
    with Suc.IH [OF rn Suc.prems(2)] show ?thesis
      by (simp add: nth_append length_gridRow)
  qed
qed

lemma newPad_sel [simp]:
  "id_pad (newPad rws cls rw cl) = (rws - 1 - rw) * cls + cl"
  "note_pad (newPad rws cls rw cl) = 36 + ((rws - 1 - rw) * cls + cl)"
  "row (newPad rws cls rw cl) = rw"
  "col (newPad rws cls rw cl) = cl"
  "isActive (newPad rws cls rw cl) = False"
  "isPressed (newPad rws cls rw cl) = False"
  "hasCustomSound (newPad rws cls rw cl) = False"
  "soundFile (newPad rws cls rw cl) = ''default-sound-'' @ numberToString ((rws - 1 - rw) * cls + cl)"
  by (simp_all add: newPad_def Let_def)

lemma length_builtPads: "0 \<le> rws \<Longrightarrow> 0 \<le> cls \<Longrightarrow> length (builtPads rws cls) = nat (rws * cls)"
  by (simp add: builtPads_def rowLoop_eq length_rowsDown nat_mult_distrib)

lemma builtPads_nth:
  assumes "0 \<le> r" "r < rws" "0 \<le> c" "c < cls"
  shows "builtPads rws cls ! nat ((rws - 1 - r) * cls + c) = newPad rws cls r c"
proof -
  have idx: "nat ((rws - 1 - r) * cls + c) = (nat rws - 1 - nat r) * nat cls + nat c"
  proof -
    have "nat rws - 1 - nat r = nat (rws - 1 - r)"
      using assms by linarith
    moreover have "nat ((rws - 1 - r) * cls + c) = nat (rws - 1 - r) * nat cls + nat c"
      using assms by (simp add: nat_add_distrib nat_mult_distrib)
    ultimately show ?thesis by simp
  qed
  have "rowsDown rws cls (nat rws) ! ((nat rws - 1 - nat r) * nat cls + nat c)
          = newPad rws cls (int (nat r)) (int (nat c))"
    using assms by (intro rowsDown_nth) simp_all
  with assms idx show ?thesis
    by (simp add: builtPads_def rowLoop_eq)
qed

lemma int_div_less_rows:
  assumes "(k::int) < r * c" "0 < c"
  shows "k div c < r"
proof (rule ccontr)
  assume "\<not> k div c < r"
  then have "r * c \<le> (k div c) * c"
    using assms(2) by (simp add: mult_right_mono)
  also have "\<dots> \<le> k"
    using div_mult_mod_eq [of k c] pos_mod_sign [of c k] assms(2) by linarith
  finally show False
    using assms(1) by simp
qed

lemma builtPads_index:
  assumes "0 \<le> rws" "0 < cls" "k < nat (rws * cls)"
  shows "builtPads rws cls ! k = newPad rws cls (rws - 1 - int k div cls) (int k mod cls)"
proof -
  let ?r = "rws - 1 - int k div cls" and ?c = "int k mod cls"
  from assms have k: "int k < rws * cls" by simp
  have q: "int k div cls < rws"
    using k assms(2) by (rule int_div_less_rows)
  have q0: "0 \<le> int k div cls"
    using assms(2) by (simp add: pos_imp_zdiv_nonneg_iff)
  have "(rws - 1 - ?r) * cls + ?c = int k"
    by simp
  moreover have "builtPads rws cls ! nat ((rws - 1 - ?r) * cls + ?c) = newPad rws cls ?r ?c"
    using q q0 assms(2) by (intro builtPads_nth) simp_all
  ultimately show ?thesis by simp
qed

lemma builtPads_ids:
  assumes "0 \<le> rws" "0 < cls"
  shows "map id_pad (builtPads rws cls) = [0..rws * cls - 1]"
proof (rule nth_equalityI)
  show "length (map id_pad (builtPads rws cls)) = length [0..rws * cls - 1]"
    using assms by (simp add: length_builtPads)
next
  fix k assume "k < length (map id_pad (builtPads rws cls))"
  then have k: "k < nat (rws * cls)"
    using assms by (simp add: length_builtPads)
  then have "int k < rws * cls" by simp
  then have "[0..rws * cls - 1] ! k = int k"
    by (simp add: nth_upto)
  with k assms show "map id_pad (builtPads rws cls) ! k = [0..rws * cls - 1] ! k"
    by (simp add: length_builtPads builtPads_index)
qed

lemma builtPads_notes:
  assumes "0 \<le> rws" "0 < cls"
  shows "map note_pad (builtPads rws cls) = [36..36 + rws * cls - 1]"
proof (rule nth_equalityI)
  show "length (map note_pad (builtPads rws cls)) = length [36..36 + rws * cls - 1]"
    using assms by (simp add: length_builtPads)
next
  fix k assume "k < length (map note_pad (builtPads rws cls))"
  then have k: "k < nat (rws * cls)"
    using assms by (simp add: length_builtPads)
  then have "int k < rws * cls" by simp
  then have "[36..36 + rws * cls - 1] ! k = 36 + int k"
    by (simp add: nth_upto)
  with k assms show "map note_pad (builtPads rws cls) ! k = [36..36 + rws * cls - 1] ! k"
    by (simp add: length_builtPads builtPads_index)
qed

lemma builtPads_member:
  assumes "0 \<le> rws" "0 < cls" "p \<in> set (builtPads rws cls)"
  shows "\<exists>r c. 0 \<le> r \<and> r < rws \<and> 0 \<le> c \<and> c < cls \<and> p = newPad rws cls r c"
proof -
  from assms(3) obtain k where k: "k < length (builtPads rws cls)" and p: "p = builtPads rws cls ! k"
    by (auto simp: in_set_conv_nth)
  from k assms have k': "k < nat (rws * cls)"
    by (simp add: length_builtPads)
  then have "int k < rws * cls" by simp
  then have q: "int k div cls < rws"
    using assms(2) by (rule int_div_less_rows)
  have q0: "0 \<le> int k div cls"
    using assms(2) by (simp add: pos_imp_zdiv_nonneg_iff)
  have "p = newPad rws cls (rws - 1 - int k div cls) (int k mod cls)"
    using p k' assms by (simp add: builtPads_index)
  moreover have "0 \<le> rws - 1 - int k div cls" "rws - 1 - int k div cls < rws"
    using q q0 by simp_all
  moreover have "0 \<le> int k mod cls" "int k mod cls < cls"
    using assms(2) by simp_all
  ultimately show ?thesis by blast
qed

lemma GRID_DIMENSIONS_pos: "0 < rows (GRID_DIMENSIONS g) \<and> 0 < cols (GRID_DIMENSIONS g)"
  by (cases g) simp_all

lemma pads_initializePads:
  "pads (initializePads s) =
     map (\<lambda>pad. pad\<lparr>color := getPadColor (selectedColorScheme s) pad\<rparr>)
       (builtPads (rows (GRID_DIMENSIONS (selectedGridSize s))) (cols (GRID_DIMENSIONS (selectedGridSize s))))"
  by (simp add: initializePads_def updateGridLayout_def applyColorScheme_def builtPads_def Let_def)

text \<open>
  Claim C1. For every grid size of \<open>GRID_DIMENSIONS\<close>, with dimensions \<open>rows\<close> and
  \<open>cols\<close>, \<open>initializePads\<close> produces exactly \<open>rows * cols\<close> pads; the pad of
  visual row \<open>r\<close> (0 is the top) and column \<open>c\<close> stands at index
  \<open>(rows - 1 - r) * cols + c\<close>, which is its id, and its note is 36 plus the id. Every
  pad of the list obeys the formula on its own row and column, the ids are
  \<open>0 .. rows * cols - 1\<close> in order, the notes are \<open>36 .. 36 + rows * cols - 1\<close> in order
  and so pairwise distinct, and a pad in the bottom row and first column has note 36.
\<close>

theorem initializePads_layout:
  "let d = GRID_DIMENSIONS (selectedGridSize s); ps = pads (initializePads s) in
     length ps = nat (rows d * cols d) \<and>
     (\<forall>r c. 0 \<le> r \<and> r < rows d \<and> 0 \<le> c \<and> c < cols d \<longrightarrow>
        row (ps ! nat ((rows d - 1 - r) * cols d + c)) = r \<and>
        col (ps ! nat ((rows d - 1 - r) * cols d + c)) = c \<and>
        id_pad (ps ! nat ((rows d - 1 - r) * cols d + c)) = (rows d - 1 - r) * cols d + c \<and>
        note_pad (ps ! nat ((rows d - 1 - r) * cols d + c)) = 36 + ((rows d - 1 - r) * cols d + c)) \<and>
     (\<forall>p \<in> set ps. 0 \<le> row p \<and> row p < rows d \<and> 0 \<le> col p \<and> col p < cols d \<and>
        id_pad p = (rows d - 1 - row p) * cols d + col p \<and> note_pad p = 36 + id_pad p) \<and>
     map id_pad ps = [0..rows d * cols d - 1] \<and>
     map note_pad ps = [36..36 + rows d * cols d - 1] \<and>
     distinct (map note_pad ps) \<and>
     (\<forall>p \<in> set ps. row p = rows d - 1 \<and> col p = 0 \<longrightarrow> note_pad p = 36)"
proof -
  define R where "R = rows (GRID_DIMENSIONS (selectedGridSize s))"
  define C where "C = cols (GRID_DIMENSIONS (selectedGridSize s))"
  define paint where "paint = (\<lambda>pad. pad\<lparr>color := getPadColor (selectedColorScheme s) pad\<rparr>)"
  define ps where "ps = pads (initializePads s)"
  have R: "0 \<le> R" and C: "0 < C"
    using GRID_DIMENSIONS_pos [of "selectedGridSize s"] by (simp_all add: R_def C_def)
  have ps: "ps = map paint (builtPads R C)"
    by (simp add: ps_def pads_initializePads R_def C_def paint_def)
  have sel: "row (paint p) = row p" "col (paint p) = col p" "id_pad (paint p) = id_pad p"
    "note_pad (paint p) = note_pad p" for p
    by (simp_all add: paint_def)
  have len: "length ps = nat (R * C)"
    using R C by (simp add: ps length_builtPads)
  have at: "row (ps ! nat ((R - 1 - r) * C + c)) = r \<and>
        col (ps ! nat ((R - 1 - r) * C + c)) = c \<and>
        id_pad (ps ! nat ((R - 1 - r) * C + c)) = (R - 1 - r) * C + c \<and>
        note_pad (ps ! nat ((R - 1 - r) * C + c)) = 36 + ((R - 1 - r) * C + c)"
    if rc: "0 \<le> r \<and> r < R \<and> 0 \<le> c \<and> c < C" for r c
  proof -
    have "(R - 1 - r) * C + c < (R - 1 - r) * C + C"
      using rc by simp
    also have "\<dots> = (R - r) * C"
      by (simp add: algebra_simps)
    also have "\<dots> \<le> R * C"
      using rc C by (simp add: mult_right_mono)
    finally have "(R - 1 - r) * C + c < R * C" .
    moreover have "0 \<le> (R - 1 - r) * C + c"
      using rc C by simp
    ultimately have "nat ((R - 1 - r) * C + c) < length (builtPads R C)"
      using R C by (simp add: length_builtPads nat_less_iff)
    then have "ps ! nat ((R - 1 - r) * C + c) = paint (newPad R C r c)"
      using rc by (simp add: ps builtPads_nth)
    then show ?thesis
      by (simp add: sel)
  qed
  have mem: "0 \<le> row p \<and> row p < R \<and> 0 \<le> col p \<and> col p < C \<and>
        id_pad p = (R - 1 - row p) * C + col p \<and> note_pad p = 36 + id_pad p"
    if "p \<in> set ps" for p
  proof -
    from that obtain q where q: "q \<in> set (builtPads R C)" and p: "p = paint q"
      by (auto simp: ps)
    from builtPads_member [OF R C q] obtain r c
      where "0 \<le> r" "r < R" "0 \<le> c" "c < C" "q = newPad R C r c"
      by blast
    then show ?thesis
      by (simp add: p sel)
  qed
  have ids: "map id_pad ps = [0..R * C - 1]"
    using builtPads_ids [OF R C] by (simp add: ps sel comp_def)
  have nts: "map note_pad ps = [36..36 + R * C - 1]"
    using builtPads_notes [OF R C] by (simp add: ps sel comp_def)
  have dist: "distinct (map note_pad ps)"
    by (simp add: nts)
  have low: "note_pad p = 36" if "p \<in> set ps" "row p = R - 1 \<and> col p = 0" for p
    using mem [OF that(1)] that(2) by simp
  show ?thesis
    unfolding Let_def R_def [symmetric] C_def [symmetric] ps_def [symmetric]
    using len at mem ids nts dist low by blast
qed

theorem initializePads_layout_witness:
  "length (pads (initializePads initialState)) = 16 \<and>
   row (pads (initializePads initialState) ! 12) = 0 \<and>
   col (pads (initializePads initialState) ! 12) = 0 \<and>
   id_pad (pads (initializePads initialState) ! 12) = 12 \<and>
   note_pad (pads (initializePads initialState) ! 12) = 48 \<and>
   pads (initializePads initialState) ! 0 \<in> set (pads (initializePads initialState)) \<and>
   row (pads (initializePads initialState) ! 0) = 3 \<and>
   col (pads (initializePads initialState) ! 0) = 0 \<and>
   note_pad (pads (initializePads initialState) ! 0) = 36 \<and>
   map note_pad (pads (initializePads initialState)) = [36..51]"
proof -
  define ps where "ps = pads (initializePads initialState)"
  have g: "GRID_DIMENSIONS (selectedGridSize initialState) = \<lparr>rows = 4, cols = 4\<rparr>"
    by (simp add: initialState_def)
  from initializePads_layout [of initialState]
  have len: "length ps = 16"
    and at: "\<forall>r c. 0 \<le> r \<and> r < 4 \<and> 0 \<le> c \<and> c < 4 \<longrightarrow>
        row (ps ! nat ((4 - 1 - r) * 4 + c)) = r \<and>
        col (ps ! nat ((4 - 1 - r) * 4 + c)) = c \<and>
        id_pad (ps ! nat ((4 - 1 - r) * 4 + c)) = (4 - 1 - r) * 4 + c \<and>
        note_pad (ps ! nat ((4 - 1 - r) * 4 + c)) = 36 + ((4 - 1 - r) * 4 + c)"
    and low: "\<forall>p \<in> set ps. row p = 4 - 1 \<and> col p = 0 \<longrightarrow> note_pad p = 36"
    and nts: "map note_pad ps = [36..51]"
    unfolding Let_def g ps_def by simp_all
  from at [rule_format, of 0 0]
  have top: "row (ps ! 12) = 0 \<and> col (ps ! 12) = 0 \<and> id_pad (ps ! 12) = 12 \<and> note_pad (ps ! 12) = 48"
    by simp
  from at [rule_format, of 3 0]
  have bot: "row (ps ! 0) = 3 \<and> col (ps ! 0) = 0"
    by simp
  from len have inset: "ps ! 0 \<in> set ps"
    by simp
  with low bot have "note_pad (ps ! 0) = 36"
    by simp
  with len top bot inset nts show ?thesis
    unfolding ps_def by simp
qed

subsection \<open>The MIDI decoder\<close>

lemma f0_mask: "(0xf0 :: 8 word) = push_bit 4 (mask 4)"
  by (simp add: mask_eq_exp_minus_1)

lemma hi_and: "(w :: 8 word) AND 0xf0 = push_bit 4 (drop_bit 4 w)"
  unfolding f0_mask
  by (rule bit_word_eqI) (auto simp add: bit_simps)

lemma drop_hi: "drop_bit 4 (push_bit 4 (drop_bit 4 (w :: 8 word))) = drop_bit 4 w"
  by (rule bit_word_eqI) (auto simp add: bit_simps dest: bit_imp_le_length)

lemma noteOn_nibble: "((w :: 8 word) AND 0xf0 = 0x90) = (drop_bit 4 w = 9)"
proof
  assume "w AND 0xf0 = 0x90"
  then have "drop_bit 4 (push_bit 4 (drop_bit 4 w)) = drop_bit 4 (0x90 :: 8 word)"
    by (simp add: hi_and)
  then show "drop_bit 4 w = 9"
    by (simp add: drop_hi)
next
  assume "drop_bit 4 w = 9"
  then show "w AND 0xf0 = 0x90"
    by (simp add: hi_and)
qed

lemma noteOff_nibble: "((w :: 8 word) AND 0xf0 = 0x80) = (drop_bit 4 w = 8)"
proof
  assume "w AND 0xf0 = 0x80"
  then have "drop_bit 4 (push_bit 4 (drop_bit 4 w)) = drop_bit 4 (0x80 :: 8 word)"
    by (simp add: hi_and)
  then show "drop_bit 4 w = 8"
    by (simp add: drop_hi)
next
  assume "drop_bit 4 w = 8"
  then show "w AND 0xf0 = 0x80"
    by (simp add: hi_and)
qed

text \<open>
  Claim C2. For a message of three bytes, \<open>handleMIDIMessage\<close> calls \<open>triggerPad\<close>
  with the note of data byte 1 exactly when the high nibble of the status byte is 9 and
  the velocity byte is above 0; it calls \<open>releasePad\<close> with that note when the high
  nibble is 9 and the velocity is 0, or when the high nibble is 8, whatever the velocity;
  for every other status byte the state, including the error slot, is returned unchanged.
  Two status bytes with the same high nibble give the same result: the channel nibble is
  ignored.
\<close>

theorem handleMIDIMessage_decodes:
  "handleMIDIMessage s [status, note, velocity] =
     (if drop_bit 4 status = 9 \<and> velocity > 0 then triggerPad s (uint note)
      else if drop_bit 4 status = 9 \<and> velocity = 0 \<or> drop_bit 4 status = 8
        then releasePad s (uint note)
      else s) \<and>
   (drop_bit 4 status' = drop_bit 4 status \<longrightarrow>
      handleMIDIMessage s [status', note, velocity] = handleMIDIMessage s [status, note, velocity])"
proof -
  have v: "(uint velocity > 0) = (velocity > 0)"
  proof -
    have "0 \<le> uint velocity" by simp
    moreover have "(uint velocity = 0) = (velocity = 0)"
      by (simp add: uint_0_iff)
    ultimately have "(uint velocity > 0) = (velocity \<noteq> 0)"
      by linarith
    then show ?thesis
      by (simp add: word_greater_zero_iff)
  qed
  have h: "handleMIDIMessage s [w, note, velocity] =
     (if drop_bit 4 w = 9 then
        (if velocity > 0 then triggerPad s (uint note) else releasePad s (uint note))
      else if drop_bit 4 w = 8 then releasePad s (uint note)
      else s)" for w
    by (simp add: noteOn_nibble noteOff_nibble v del: word_greater_zero_iff)
  show ?thesis
    unfolding h by (auto simp add: word_greater_zero_iff)
qed

theorem handleMIDIMessage_decodes_witness:
  "drop_bit 4 (0x95 :: 8 word) = drop_bit 4 (0x90 :: 8 word) \<and>
   handleMIDIMessage initialState [0x95, 60, 100] = handleMIDIMessage initialState [0x90, 60, 100] \<and>
   handleMIDIMessage initialState [0x90, 60, 100] = triggerPad initialState 60 \<and>
   handleMIDIMessage initialState [0x90, 60, 0] = releasePad initialState 60 \<and>
   handleMIDIMessage initialState [0x80, 60, 0] = releasePad initialState 60 \<and>
   handleMIDIMessage initialState [0xB0, 7, 127] = initialState"
proof -
  have n: "drop_bit 4 (0x95 :: 8 word) = drop_bit 4 (0x90 :: 8 word)"
    by simp
  from handleMIDIMessage_decodes [of initialState "0x90" 60 100 "0x95"] n
  have a: "handleMIDIMessage initialState [0x95, 60, 100] = handleMIDIMessage initialState [0x90, 60, 100]"
    and b: "handleMIDIMessage initialState [0x90, 60, 100] = triggerPad initialState 60"
    by simp_all
  from handleMIDIMessage_decodes [of initialState "0x90" 60 0 "0x90"]
  have c: "handleMIDIMessage initialState [0x90, 60, 0] = releasePad initialState 60"
    by simp
  from handleMIDIMessage_decodes [of initialState "0x80" 60 0 "0x80"]
  have d: "handleMIDIMessage initialState [0x80, 60, 0] = releasePad initialState 60"
    by simp
  from handleMIDIMessage_decodes [of initialState "0xB0" 7 127 "0xB0"]
  have e: "handleMIDIMessage initialState [0xB0, 7, 127] = initialState"
    by simp
  from n a b c d e show ?thesis
    by blast
qed

subsection \<open>Searching pads, and what each handler leaves alone\<close>

lemma findIndex_bounds: "- 1 \<le> findIndex P xs \<and> findIndex P xs < int (length xs)"
  by (induction xs) (auto simp: Let_def)

lemma findIndex_neg_iff: "(findIndex P xs < 0) = (\<forall>x \<in> set xs. \<not> P x)"
proof (induction xs)
  case Nil
  show ?case by simp
next
  case (Cons x xs)
  have "- 1 \<le> findIndex P xs"
    using findIndex_bounds [of P xs] by simp
  with Cons show ?case
    by (auto simp: Let_def)
qed

lemma findIndex_no_match: "\<forall>x \<in> set xs. \<not> P x \<Longrightarrow> findIndex P xs = - 1"
  using findIndex_neg_iff [of P xs] findIndex_bounds [of P xs] by simp

lemma findIndex_nth: "0 \<le> findIndex P xs \<Longrightarrow> P (xs ! nat (findIndex P xs))"
proof (induction xs)
  case Nil
  then show ?case by simp
next
  case (Cons x xs)
  show ?case
  proof (cases "P x")
    case True
    then show ?thesis by simp
  next
    case False
    with Cons.prems have r: "0 \<le> findIndex P xs"
      by (simp add: Let_def split: if_splits)
    then have "nat (findIndex P xs + 1) = Suc (nat (findIndex P xs))"
      by simp
    with False r Cons.IH show ?thesis
      by (simp add: Let_def)
  qed
qed

lemma pads_initAudio [simp]: "pads (initAudio s) = pads s"
  and started_initAudio [simp]: "started (initAudio s) = started s"
  and timers_initAudio [simp]: "timers (initAudio s) = timers s"
  and audioBuffers_initAudio [simp]: "audioBuffers (initAudio s) = audioBuffers s"
  and error_initAudio [simp]: "error (initAudio s) = error s"
  by (simp_all add: initAudio_def)

lemma pads_playSound [simp]: "pads (playSound s f) = pads s"
  and timers_playSound [simp]: "timers (playSound s f) = timers s"
  and audioBuffers_playSound [simp]: "audioBuffers (playSound s f) = audioBuffers s"
  and error_playSound [simp]: "error (playSound s f) = error s"
  and customSoundNames_playSound [simp]: "customSoundNames (playSound s f) = customSoundNames s"
  by (simp_all add: playSound_def Let_def split: option.splits)

lemma map_update_keep:
  assumes "\<And>x. f (g x) = f x"
  shows "map f (xs[i := g (xs ! i)]) = map f xs"
proof (cases "i < length xs")
  case True
  then show ?thesis
    by (simp add: map_update assms list_update_same_conv)
next
  case False
  then have "xs[i := g (xs ! i)] = xs"
    by (simp add: list_update_beyond)
  then show ?thesis by simp
qed

lemma pads_triggerPad:
  "pads (triggerPad s n) =
     (if 0 \<le> findIndex (\<lambda>pad. note_pad pad = n) (pads s)
      then (pads s)[nat (findIndex (\<lambda>pad. note_pad pad = n) (pads s)) :=
             (pads s ! nat (findIndex (\<lambda>pad. note_pad pad = n) (pads s)))\<lparr>isActive := True, isPressed := True\<rparr>]
      else pads s)"
  by (simp add: triggerPad_def Let_def)

lemma timers_triggerPad [simp]: "timers (triggerPad s n) = timers s"
  and selectedGridSize_triggerPad [simp]: "selectedGridSize (triggerPad s n) = selectedGridSize s"
  and audioBuffers_triggerPad [simp]: "audioBuffers (triggerPad s n) = audioBuffers s"
  by (simp_all add: triggerPad_def initAudio_def playSound_def Let_def split: option.splits)

lemma pads_releasePad:
  "pads (releasePad s n) =
     (if 0 \<le> findIndex (\<lambda>pad. note_pad pad = n) (pads s)
      then (pads s)[nat (findIndex (\<lambda>pad. note_pad pad = n) (pads s)) :=
             (pads s ! nat (findIndex (\<lambda>pad. note_pad pad = n) (pads s)))\<lparr>isPressed := False\<rparr>]
      else pads s)"
  by (simp add: releasePad_def Let_def)

lemma timers_releasePad:
  "timers (releasePad s n) =
     (if 0 \<le> findIndex (\<lambda>pad. note_pad pad = n) (pads s)
      then timers s @ [findIndex (\<lambda>pad. note_pad pad = n) (pads s)] else timers s)"
  by (simp add: releasePad_def Let_def)

lemma selectedGridSize_releasePad [simp]: "selectedGridSize (releasePad s n) = selectedGridSize s"
  and audioBuffers_releasePad [simp]: "audioBuffers (releasePad s n) = audioBuffers s"
  and started_releasePad [simp]: "started (releasePad s n) = started s"
  by (simp_all add: releasePad_def Let_def)

lemma triggerPad_no_match:
  assumes "\<forall>p \<in> set (pads s). note_pad p \<noteq> n"
  shows "triggerPad s n = initAudio s"
proof -
  have "findIndex (\<lambda>pad. note_pad pad = n) (pads (initAudio s)) = - 1"
    using assms by (intro findIndex_no_match) simp
  then show ?thesis
    by (simp add: triggerPad_def Let_def)
qed

lemma releasePad_no_match:
  assumes "\<forall>p \<in> set (pads s). note_pad p \<noteq> n"
  shows "releasePad s n = s"
proof -
  have "findIndex (\<lambda>pad. note_pad pad = n) (pads s) = - 1"
    using assms by (intro findIndex_no_match) simp
  then show ?thesis
    by (simp add: releasePad_def Let_def)
qed

subsection \<open>The flag discipline\<close>




lemma foldl_release_inv:
  assumes "\<And>s n. Q s \<Longrightarrow> Q (releasePad s n)"
  shows "Q s \<Longrightarrow>
    Q (foldl (\<lambda>s' k. if isPressed (pads s' ! k) then releasePad s' (note_pad (pads s' ! k)) else s') s ks)"
  by (induction ks arbitrary: s) (simp_all add: assms)




lemma loadDefaultSounds_eq:
  "loadDefaultSounds s ps =
     (if audioContext s
      then s\<lparr>audioBuffers := foldl (\<lambda>b pad. b(soundFile pad \<mapsto> SineTone (note_pad pad))) (audioBuffers s) ps\<rparr>
      else s)"
proof -
  have "foldl (\<lambda>s' pad. s'\<lparr>audioBuffers := (audioBuffers s')(soundFile pad \<mapsto> SineTone (note_pad pad))\<rparr>) s ps
      = s\<lparr>audioBuffers := foldl (\<lambda>b pad. b(soundFile pad \<mapsto> SineTone (note_pad pad))) (audioBuffers s) ps\<rparr>"
    by (induction ps arbitrary: s) simp_all
  then show ?thesis
    by (simp add: loadDefaultSounds_def)
qed

lemma pads_loadDefaultSounds [simp]: "pads (loadDefaultSounds s ps) = pads s"
  and timers_loadDefaultSounds [simp]: "timers (loadDefaultSounds s ps) = timers s"
  and selectedGridSize_loadDefaultSounds [simp]: "selectedGridSize (loadDefaultSounds s ps) = selectedGridSize s"
  and audioContext_loadDefaultSounds [simp]: "audioContext (loadDefaultSounds s ps) = audioContext s"
  by (simp_all add: loadDefaultSounds_eq)

lemma selectedGridSize_initializePads [simp]: "selectedGridSize (initializePads s) = selectedGridSize s"
  and audioContext_initializePads [simp]: "audioContext (initializePads s) = audioContext s"
  and audioBuffers_initializePads [simp]: "audioBuffers (initializePads s) = audioBuffers s"
  by (simp_all add: initializePads_def updateGridLayout_def applyColorScheme_def Let_def)




lemma pads_loadCustomSound:
  "pads (fst (loadCustomSound s file padId now)) =
     (if audioContext s \<and> \<not> isl (decodeResult file) \<and> 0 \<le> findIndex (\<lambda>pad. id_pad pad = padId) (pads s)
      then (pads s)[nat (findIndex (\<lambda>pad. id_pad pad = padId) (pads s)) :=
             (pads s ! nat (findIndex (\<lambda>pad. id_pad pad = padId) (pads s)))
               \<lparr>soundFile := customSoundId padId now, hasCustomSound := True\<rparr>]
      else pads s)"
  by (simp add: loadCustomSound_def Let_def split: sum.splits)





subsection \<open>The press and release cycle\<close>

lemma findIndex_map: "findIndex (\<lambda>p. f p = n) xs = findIndex (\<lambda>v. v = n) (map f xs)"
  by (induction xs) (simp_all add: Let_def)

lemma notes_triggerPad [simp]: "map note_pad (pads (triggerPad s n)) = map note_pad (pads s)"
  by (simp add: pads_triggerPad
      map_update_keep [where f = note_pad and g = "\<lambda>x. x\<lparr>isActive := True, isPressed := True\<rparr>"])

lemma notes_releasePad [simp]: "map note_pad (pads (releasePad s n)) = map note_pad (pads s)"
  by (simp add: pads_releasePad
      map_update_keep [where f = note_pad and g = "\<lambda>x. x\<lparr>isPressed := False\<rparr>"])

lemma findIndex_triggerPad [simp]:
  "findIndex (\<lambda>pad. note_pad pad = m) (pads (triggerPad s n)) = findIndex (\<lambda>pad. note_pad pad = m) (pads s)"
  by (simp add: findIndex_map [where f = note_pad])

lemma findIndex_releasePad [simp]:
  "findIndex (\<lambda>pad. note_pad pad = m) (pads (releasePad s n)) = findIndex (\<lambda>pad. note_pad pad = m) (pads s)"
  by (simp add: findIndex_map [where f = note_pad])

lemma length_pads_triggerPad [simp]: "length (pads (triggerPad s n)) = length (pads s)"
  by (simp add: pads_triggerPad)

lemma length_pads_releasePad [simp]: "length (pads (releasePad s n)) = length (pads s)"
  by (simp add: pads_releasePad)

lemma nth_update_sel: "k < length xs \<Longrightarrow> xs[i := y] ! k = (if i = k then y else xs ! k)"
  by (cases "i = k") simp_all

lemma isActive_triggerPad:
  "k < length (pads s) \<Longrightarrow> isActive (pads s ! k) \<Longrightarrow> isActive (pads (triggerPad s m) ! k)"
  by (simp add: pads_triggerPad nth_update_sel)

lemma isActive_releasePad:
  "k < length (pads s) \<Longrightarrow> isActive (pads (releasePad s m) ! k) = isActive (pads s ! k)"
  by (simp add: pads_releasePad nth_update_sel)

text \<open>
  Claim C3. Let \<open>k\<close> be the index \<open>findIndex\<close> gives for note \<open>n\<close>, and the pad
  there idle. A press makes it held (pressed and active); the release that follows makes
  it releasing (not pressed, still active) and schedules a decay timer for index \<open>k\<close>.
  While releasing, no press or release of any note clears the active flag; the callback of
  the timer does, and the pad is idle again. A press while releasing makes the pad held
  at once and leaves the scheduled timer in place; when that timer fires it still clears
  the active flag, on a pad that is pressed. With no other timer pending, the firing of
  the oldest timer is this callback.
\<close>

theorem press_release_cycle:
  assumes found: "findIndex (\<lambda>pad. note_pad pad = n) (pads s) = int k"
    and idle: "\<not> isPressed (pads s ! k) \<and> \<not> isActive (pads s ! k)"
  shows "(isPressed (pads (triggerPad s n) ! k) \<and> isActive (pads (triggerPad s n) ! k)) \<and>
     (\<not> isPressed (pads (releasePad (triggerPad s n) n) ! k) \<and>
        isActive (pads (releasePad (triggerPad s n) n) ! k)) \<and>
     timers (releasePad (triggerPad s n) n) = timers s @ [int k] \<and>
     (\<forall>m. isActive (pads (triggerPad (releasePad (triggerPad s n) n) m) ! k) \<and>
          isActive (pads (releasePad (releasePad (triggerPad s n) n) m) ! k)) \<and>
     (\<exists>s'. decayTimeout (int k) (releasePad (triggerPad s n) n) = Inr s' \<and>
          \<not> isPressed (pads s' ! k) \<and> \<not> isActive (pads s' ! k)) \<and>
     (isPressed (pads (triggerPad (releasePad (triggerPad s n) n) n) ! k) \<and>
        isActive (pads (triggerPad (releasePad (triggerPad s n) n) n) ! k)) \<and>
     timers (triggerPad (releasePad (triggerPad s n) n) n) = timers s @ [int k] \<and>
     (\<exists>s'. decayTimeout (int k) (triggerPad (releasePad (triggerPad s n) n) n) = Inr s' \<and>
          isPressed (pads s' ! k) \<and> \<not> isActive (pads s' ! k)) \<and>
     (timers s = [] \<longrightarrow>
        \<not> isPressed (pads (timerFires (releasePad (triggerPad s n) n)) ! k) \<and>
        \<not> isActive (pads (timerFires (releasePad (triggerPad s n) n)) ! k) \<and>
        isPressed (pads (timerFires (triggerPad (releasePad (triggerPad s n) n) n)) ! k) \<and>
        \<not> isActive (pads (timerFires (triggerPad (releasePad (triggerPad s n) n) n)) ! k))"
proof -
  define held where "held = triggerPad s n"
  define releasing where "releasing = releasePad held n"
  define again where "again = triggerPad releasing n"
  have k: "k < length (pads s)"
    using findIndex_bounds [of "\<lambda>pad. note_pad pad = n" "pads s"] found by simp
  have fh: "findIndex (\<lambda>pad. note_pad pad = n) (pads held) = int k"
    and fr: "findIndex (\<lambda>pad. note_pad pad = n) (pads releasing) = int k"
    by (simp_all add: held_def releasing_def found)
  have lh: "k < length (pads held)" and lr: "k < length (pads releasing)"
    and la: "k < length (pads again)"
    using k by (simp_all add: held_def releasing_def again_def)
  have h: "isPressed (pads held ! k) \<and> isActive (pads held ! k)"
    using k found by (simp add: held_def pads_triggerPad)
  have r: "\<not> isPressed (pads releasing ! k) \<and> isActive (pads releasing ! k)"
    using lh fh h by (simp add: releasing_def pads_releasePad)
  have tr: "timers releasing = timers s @ [int k]"
    using fh by (simp add: releasing_def timers_releasePad held_def)
  have stay: "isActive (pads (triggerPad releasing m) ! k) \<and> isActive (pads (releasePad releasing m) ! k)" for m
    using lr r by (simp add: isActive_triggerPad isActive_releasePad)
  have d1: "\<exists>s'. decayTimeout (int k) releasing = Inr s' \<and>
          \<not> isPressed (pads s' ! k) \<and> \<not> isActive (pads s' ! k)"
    using lr r by (simp add: decayTimeout_def)
  have a: "isPressed (pads again ! k) \<and> isActive (pads again ! k)"
    using lr fr by (simp add: again_def pads_triggerPad)
  have ta: "timers again = timers s @ [int k]"
    using tr by (simp add: again_def)
  have d2: "\<exists>s'. decayTimeout (int k) again = Inr s' \<and>
          isPressed (pads s' ! k) \<and> \<not> isActive (pads s' ! k)"
    using la a by (simp add: decayTimeout_def)
  have f: "\<not> isPressed (pads (timerFires releasing) ! k) \<and>
        \<not> isActive (pads (timerFires releasing) ! k) \<and>
        isPressed (pads (timerFires again) ! k) \<and>
        \<not> isActive (pads (timerFires again) ! k)" if "timers s = []"
    using that tr ta lr la r a by (simp add: timerFires_def decayTimeout_def)
  from h r tr stay d1 a ta d2 f show ?thesis
    unfolding held_def releasing_def again_def by blast
qed

theorem press_release_cycle_witness:
  "findIndex (\<lambda>pad. note_pad pad = 36) (pads mountedState) = int 0 \<and>
   \<not> isPressed (pads mountedState ! 0) \<and> \<not> isActive (pads mountedState ! 0) \<and>
   timers mountedState = [] \<and>
   isPressed (pads (triggerPad mountedState 36) ! 0) \<and>
   isActive (pads (triggerPad mountedState 36) ! 0) \<and>
   \<not> isPressed (pads (releasePad (triggerPad mountedState 36) 36) ! 0) \<and>
   isActive (pads (releasePad (triggerPad mountedState 36) 36) ! 0) \<and>
   timers (releasePad (triggerPad mountedState 36) 36) = [0] \<and>
   \<not> isActive (pads (timerFires (releasePad (triggerPad mountedState 36) 36)) ! 0) \<and>
   isPressed (pads (timerFires (triggerPad (releasePad (triggerPad mountedState 36) 36) 36)) ! 0) \<and>
   \<not> isActive (pads (timerFires (triggerPad (releasePad (triggerPad mountedState 36) 36) 36)) ! 0)"
proof -
  have found: "findIndex (\<lambda>pad. note_pad pad = 36) (pads mountedState) = int 0"
    by code_simp
  have idle: "\<not> isPressed (pads mountedState ! 0) \<and> \<not> isActive (pads mountedState ! 0)"
    by code_simp
  have none: "timers mountedState = []"
    by code_simp
  from press_release_cycle [OF found idle] none found idle show ?thesis
    by simp
qed

subsection \<open>The flag pairs of reachable states\<close>




subsection \<open>The geometry of the grid in reachable states\<close>

lemma geometry_flags [simp]:
  "geometry (p\<lparr>isActive := a\<rparr>) = geometry p"
  "geometry (p\<lparr>isPressed := b\<rparr>) = geometry p"
  "geometry (p\<lparr>soundFile := f\<rparr>) = geometry p"
  "geometry (p\<lparr>hasCustomSound := h\<rparr>) = geometry p"
  "geometry (p\<lparr>color := c\<rparr>) = geometry p"
  by (simp_all add: geometry_def)

lemma geometry_triggerPad [simp]: "map geometry (pads (triggerPad s n)) = map geometry (pads s)"
  by (simp add: pads_triggerPad
      map_update_keep [where f = geometry and g = "\<lambda>x. x\<lparr>isActive := True, isPressed := True\<rparr>"])

lemma geometry_releasePad [simp]: "map geometry (pads (releasePad s n)) = map geometry (pads s)"
  by (simp add: pads_releasePad
      map_update_keep [where f = geometry and g = "\<lambda>x. x\<lparr>isPressed := False\<rparr>"])

lemma gridBuilt_triggerPad: "gridBuilt s \<Longrightarrow> gridBuilt (triggerPad s n)"
  by (simp add: gridBuilt_def)

lemma gridBuilt_releasePad: "gridBuilt s \<Longrightarrow> gridBuilt (releasePad s n)"
  by (simp add: gridBuilt_def)

lemma gridBuilt_handleMIDIMessage: "gridBuilt s \<Longrightarrow> gridBuilt (handleMIDIMessage s data)"
  by (induction s data rule: handleMIDIMessage.induct)
     (simp_all add: gridBuilt_triggerPad gridBuilt_releasePad)

lemma gridBuilt_handleGlobalMouseUp: "gridBuilt s \<Longrightarrow> gridBuilt (handleGlobalMouseUp s)"
  unfolding handleGlobalMouseUp_def
  by (rule foldl_release_inv [where Q = gridBuilt]) (simp_all add: gridBuilt_releasePad)

lemma gridBuilt_handleColorSchemeChange: "gridBuilt s \<Longrightarrow> gridBuilt (handleColorSchemeChange s v)"
  by (simp add: gridBuilt_def handleColorSchemeChange_def applyColorScheme_def comp_def)

lemma gridBuilt_initializePads: "gridBuilt (initializePads s)"
  by (simp add: gridBuilt_def pads_initializePads comp_def)

lemma gridBuilt_handleGridSizeChange: "gridBuilt (handleGridSizeChange s v)"
  using gridBuilt_initializePads [of "s\<lparr>selectedGridSize := v\<rparr>"]
  by (simp add: handleGridSizeChange_def Let_def gridBuilt_def)

lemma gridBuilt_onMount: "gridBuilt (onMount created midiSupported s)"
proof -
  have "gridBuilt (initializePads s')" for s'
    by (rule gridBuilt_initializePads)
  then show ?thesis
    by (simp add: onMount_def Let_def gridBuilt_def)
qed

lemma selectedGridSize_loadCustomSound [simp]:
  "selectedGridSize (fst (loadCustomSound s file padId now)) = selectedGridSize s"
  by (simp add: loadCustomSound_def Let_def split: sum.splits)

lemma gridBuilt_loadCustomSound:
  "gridBuilt s \<Longrightarrow> gridBuilt (fst (loadCustomSound s file padId now))"
  by (simp add: gridBuilt_def pads_loadCustomSound
      map_update_keep [where f = geometry
        and g = "\<lambda>x. x\<lparr>soundFile := customSoundId padId now, hasCustomSound := True\<rparr>"])

lemma gridBuilt_timerFires: "gridBuilt s \<Longrightarrow> gridBuilt (timerFires s)"
  by (simp add: gridBuilt_def timerFires_def decayTimeout_def
      map_update_keep [where f = geometry and g = "\<lambda>x. x\<lparr>isActive := False\<rparr>"]
      split: list.splits)

lemma gridBuilt_step: "gridBuilt s \<Longrightarrow> gridBuilt (step s e)"
proof (cases e)
  case (PadDown k)
  assume "gridBuilt s"
  with PadDown show ?thesis
    by (simp add: gridBuilt_triggerPad)
next
  case ResumeResolved
  assume "gridBuilt s"
  with ResumeResolved show ?thesis
    by (simp add: gridBuilt_def)
next
  case MidiRejected
  assume "gridBuilt s"
  with MidiRejected show ?thesis
    by (simp add: gridBuilt_def)
qed (simp_all add: gridBuilt_handleMIDIMessage gridBuilt_handleGlobalMouseUp
       gridBuilt_handleColorSchemeChange gridBuilt_handleGridSizeChange
       gridBuilt_loadCustomSound gridBuilt_timerFires)

lemma gridBuilt_run: "gridBuilt s \<Longrightarrow> gridBuilt (run s es)"
  by (induction es arbitrary: s) (simp_all add: run_def gridBuilt_step)

lemma gridBuilt_notes:
  assumes "gridBuilt s"
  shows "map note_pad (pads s) =
     [36..36 + rows (GRID_DIMENSIONS (selectedGridSize s)) * cols (GRID_DIMENSIONS (selectedGridSize s)) - 1]"
proof -
  let ?R = "rows (GRID_DIMENSIONS (selectedGridSize s))" and ?C = "cols (GRID_DIMENSIONS (selectedGridSize s))"
  have n: "note_pad = (\<lambda>g. fst (snd g)) \<circ> geometry"
    by (simp add: fun_eq_iff geometry_def)
  have "map note_pad (pads s) = map (\<lambda>g. fst (snd g)) (map geometry (pads s))"
    by (simp add: n)
  also have "\<dots> = map (\<lambda>g. fst (snd g)) (map geometry (builtPads ?R ?C))"
    using assms by (simp add: gridBuilt_def)
  also have "\<dots> = map note_pad (builtPads ?R ?C)"
    by (simp add: n)
  also have "\<dots> = [36..36 + ?R * ?C - 1]"
    using GRID_DIMENSIONS_pos [of "selectedGridSize s"] by (intro builtPads_notes) simp_all
  finally show ?thesis .
qed

lemma gridBuilt_member:
  assumes "gridBuilt s" "p \<in> set (pads s)"
  shows "\<exists>r c. 0 \<le> r \<and> r < rows (GRID_DIMENSIONS (selectedGridSize s)) \<and>
           0 \<le> c \<and> c < cols (GRID_DIMENSIONS (selectedGridSize s)) \<and>
           geometry p = geometry (newPad (rows (GRID_DIMENSIONS (selectedGridSize s)))
                                         (cols (GRID_DIMENSIONS (selectedGridSize s))) r c)"
proof -
  let ?R = "rows (GRID_DIMENSIONS (selectedGridSize s))" and ?C = "cols (GRID_DIMENSIONS (selectedGridSize s))"
  from assms(2) have "geometry p \<in> set (map geometry (pads s))"
    by simp
  with assms(1) have "geometry p \<in> set (map geometry (builtPads ?R ?C))"
    by (simp add: gridBuilt_def)
  then obtain q where q: "q \<in> set (builtPads ?R ?C)" and g: "geometry p = geometry q"
    by auto
  have "0 \<le> ?R" "0 < ?C"
    using GRID_DIMENSIONS_pos [of "selectedGridSize s"] by simp_all
  from builtPads_member [OF this q] g show ?thesis
    by auto
qed

lemma gridBuilt_nonneg:
  assumes "gridBuilt s" "p \<in> set (pads s)"
  shows "0 \<le> id_pad p \<and> note_pad p = 36 + id_pad p \<and> 0 \<le> row p \<and> 0 \<le> col p"
proof -
  from gridBuilt_member [OF assms] obtain r c
    where b: "0 \<le> r" "r < rows (GRID_DIMENSIONS (selectedGridSize s))"
      "0 \<le> c" "c < cols (GRID_DIMENSIONS (selectedGridSize s))"
    and g: "geometry p = geometry (newPad (rows (GRID_DIMENSIONS (selectedGridSize s)))
                                         (cols (GRID_DIMENSIONS (selectedGridSize s))) r c)"
    by blast
  from b have "0 \<le> (rows (GRID_DIMENSIONS (selectedGridSize s)) - 1 - r) * cols (GRID_DIMENSIONS (selectedGridSize s))"
    by simp
  with b g show ?thesis
    by (simp add: geometry_def)
qed

subsection \<open>Unmatched notes, unregistered sounds, failed decoding\<close>

text \<open>
  Claim C10. When the note \<open>n\<close> is the note of no pad, \<open>triggerPad\<close> leaves the pads,
  the started sources, the pending timers and the bank as they are (only \<open>initAudio\<close>
  may ask the context to resume), and \<open>releasePad\<close> returns the state unchanged. In
  every state reached from start-up, a note below 36 or from \<open>36 + rows * cols\<close> on,
  for the dimensions of the selected grid, is the note of no pad.
\<close>

theorem unmatched_note_frame:
  "((\<forall>p \<in> set (pads s). note_pad p \<noteq> n) \<longrightarrow>
      pads (triggerPad s n) = pads s \<and> started (triggerPad s n) = started s \<and>
      timers (triggerPad s n) = timers s \<and> audioBuffers (triggerPad s n) = audioBuffers s \<and>
      releasePad s n = s) \<and>
   (s = run (onMount created midiSupported initialState) events \<and>
    (n < 36 \<or>
     36 + rows (GRID_DIMENSIONS (selectedGridSize s)) * cols (GRID_DIMENSIONS (selectedGridSize s)) \<le> n) \<longrightarrow>
      (\<forall>p \<in> set (pads s). note_pad p \<noteq> n))"
proof (intro conjI impI)
  assume none: "\<forall>p \<in> set (pads s). note_pad p \<noteq> n"
  then have t: "triggerPad s n = initAudio s"
    by (rule triggerPad_no_match)
  show "pads (triggerPad s n) = pads s" "started (triggerPad s n) = started s"
    "timers (triggerPad s n) = timers s" "audioBuffers (triggerPad s n) = audioBuffers s"
    by (simp_all add: t)
  from none show "releasePad s n = s"
    by (rule releasePad_no_match)
next
  assume a: "s = run (onMount created midiSupported initialState) events \<and>
    (n < 36 \<or>
     36 + rows (GRID_DIMENSIONS (selectedGridSize s)) * cols (GRID_DIMENSIONS (selectedGridSize s)) \<le> n)"
  then have "gridBuilt s"
    by (simp add: gridBuilt_run gridBuilt_onMount)
  then have "set (map note_pad (pads s)) =
     {36..36 + rows (GRID_DIMENSIONS (selectedGridSize s)) * cols (GRID_DIMENSIONS (selectedGridSize s)) - 1}"
    by (simp add: gridBuilt_notes)
  with a have "n \<notin> set (map note_pad (pads s))"
    by auto
  then show "\<forall>p \<in> set (pads s). note_pad p \<noteq> n"
    by auto
qed

theorem unmatched_note_frame_witness:
  "mountedState = run (onMount Suspended True initialState) [] \<and>
   36 + rows (GRID_DIMENSIONS (selectedGridSize mountedState)) * cols (GRID_DIMENSIONS (selectedGridSize mountedState)) \<le> 60 \<and>
   pads (triggerPad mountedState 60) = pads mountedState \<and>
   started (triggerPad mountedState 60) = started mountedState \<and>
   timers (triggerPad mountedState 60) = timers mountedState \<and>
   releasePad mountedState 60 = mountedState"
proof -
  have r: "mountedState = run (onMount Suspended True initialState) []"
    by (simp add: mountedState_def run_def)
  have g: "selectedGridSize mountedState = GRID_4X4"
    by (simp add: mountedState_def onMount_def Let_def initialState_def)
  have b: "36 + rows (GRID_DIMENSIONS (selectedGridSize mountedState)) * cols (GRID_DIMENSIONS (selectedGridSize mountedState)) \<le> 60"
    by (simp add: g)
  from unmatched_note_frame [of mountedState 60 Suspended True "[]"] r b
  have "\<forall>p \<in> set (pads mountedState). note_pad p \<noteq> 60"
    by blast
  with unmatched_note_frame [of mountedState 60 Suspended True "[]"] r b show ?thesis
    by blast
qed

text \<open>
  Claim C6. \<open>playSound\<close> with a sound id that has no buffer in the bank starts no
  source and changes neither the pads nor the bank, the error slot, the custom names or
  the timers. The function has no statement that throws on this path: the result is the
  state itself, up to the \<open>resume()\<close> the function requests first when the context is
  not running.
\<close>

theorem playSound_unregistered:
  "audioBuffers s sound = None \<Longrightarrow>
     pads (playSound s sound) = pads s \<and> audioBuffers (playSound s sound) = audioBuffers s \<and>
     started (playSound s sound) = started s \<and> error (playSound s sound) = error s \<and>
     customSoundNames (playSound s sound) = customSoundNames s \<and>
     timers (playSound s sound) = timers s \<and>
     playSound s sound =
       (if audioContext s \<and> contextState s \<noteq> Running then s\<lparr>resumeCalls := resumeCalls s + 1\<rparr> else s)"
  by (simp add: playSound_def Let_def)

theorem playSound_unregistered_witness:
  "audioBuffers mountedState ''no-such-sound'' = None \<and>
   pads (playSound mountedState ''no-such-sound'') = pads mountedState \<and>
   audioBuffers (playSound mountedState ''no-such-sound'') = audioBuffers mountedState \<and>
   started (playSound mountedState ''no-such-sound'') = started mountedState \<and>
   error (playSound mountedState ''no-such-sound'') = error mountedState"
proof -
  have n: "audioBuffers mountedState ''no-such-sound'' = None"
    by code_simp
  from playSound_unregistered [OF n] n show ?thesis
    by simp
qed

text \<open>
  Claim C5. When the audio context exists and reading or decoding the file fails with a
  message, \<open>loadCustomSound\<close> stores \<open>Failed to load sound file:\<close> followed by the message
  in the error slot, resolves to false, and leaves the pads (so the target pad's
  \<open>soundFile\<close> and \<open>hasCustomSound\<close>), the bank and the custom names as they were.
\<close>

theorem loadCustomSound_decode_failure:
  "audioContext s \<and> decodeResult file = Inl message \<Longrightarrow>
     loadCustomSound s file padId now =
       (s\<lparr>error := Some (''Failed to load sound file: '' @ message)\<rparr>, Some False) \<and>
     error (fst (loadCustomSound s file padId now)) = Some (''Failed to load sound file: '' @ message) \<and>
     pads (fst (loadCustomSound s file padId now)) = pads s \<and>
     audioBuffers (fst (loadCustomSound s file padId now)) = audioBuffers s \<and>
     customSoundNames (fst (loadCustomSound s file padId now)) = customSoundNames s"
  by (simp add: loadCustomSound_def)

theorem loadCustomSound_decode_failure_witness:
  "audioContext mountedState \<and>
   decodeResult \<lparr>fileName = ''notes.txt'', decodeResult = Inl ''Unable to decode audio data''\<rparr>
     = Inl ''Unable to decode audio data'' \<and>
   error (fst (loadCustomSound mountedState
      \<lparr>fileName = ''notes.txt'', decodeResult = Inl ''Unable to decode audio data''\<rparr> 0 1000))
     = Some ''Failed to load sound file: Unable to decode audio data'' \<and>
   pads (fst (loadCustomSound mountedState
      \<lparr>fileName = ''notes.txt'', decodeResult = Inl ''Unable to decode audio data''\<rparr> 0 1000))
     = pads mountedState \<and>
   audioBuffers (fst (loadCustomSound mountedState
      \<lparr>fileName = ''notes.txt'', decodeResult = Inl ''Unable to decode audio data''\<rparr> 0 1000))
     = audioBuffers mountedState"
proof -
  have c: "audioContext mountedState \<and>
    decodeResult \<lparr>fileName = ''notes.txt'', decodeResult = Inl ''Unable to decode audio data''\<rparr>
     = Inl ''Unable to decode audio data''"
    by (simp add: mountedState_def onMount_def Let_def)
  from loadCustomSound_decode_failure [OF c, of 0 1000] c show ?thesis
    by simp
qed

subsection \<open>The colour mapper\<close>

lemma jsRem_nonneg: "0 \<le> a \<Longrightarrow> 0 < b \<Longrightarrow> jsRem a b = a mod b"
  by (cases "a = 0") (simp_all add: jsRem_def)

lemma getPadColor_nonneg:
  assumes "0 \<le> note_pad pad" "0 \<le> row pad" "0 \<le> col pad"
  shows "getPadColor ''rainbow'' pad =
       Some (''hsl('' @ numberToString ((note_pad pad mod 12 * 30 + row pad * 15) mod 360) @ '', 85%, 65%)'')"
    and "getPadColor ''music-theory'' pad =
       Some (if note_pad pad mod 12 = 0 then ''#FF5252''
             else if note_pad pad mod 12 = 5 then ''#448AFF''
             else if note_pad pad mod 12 = 7 then ''#69F0AE''
             else ''#9E9E9E'')"
    and "getPadColor ''checkerboard'' pad =
       Some (if (row pad + col pad) mod 2 = 0 then ''#212121'' else ''#616161'')"
    and "getPadColor ''neon-glow'' pad =
       Some (''hsl('' @ numberToString ((note_pad pad mod 12 * 30) mod 360) @ '', 100%, 65%)'')"
    and "getPadColor ''mpc'' pad = Some ''#424242''"
    and "getPadColor ''midnight'' pad =
       Some (synthwaveColors ! nat ((note_pad pad mod 12 + row pad * 2) mod 8))"
proof -
  have nv: "jsRem (note_pad pad) 12 = note_pad pad mod 12"
    using assms by (simp add: jsRem_nonneg)
  have nn: "0 \<le> note_pad pad mod 12"
    by simp
  have hue: "jsRem (note_pad pad mod 12 * 30 + row pad * 15) 360
      = (note_pad pad mod 12 * 30 + row pad * 15) mod 360"
    using assms nn by (intro jsRem_nonneg) simp_all
  have neon: "jsRem (note_pad pad mod 12 * 30) 360 = (note_pad pad mod 12 * 30) mod 360"
    using nn by (intro jsRem_nonneg) simp_all
  have chk: "jsRem (row pad + col pad) 2 = (row pad + col pad) mod 2"
    using assms by (intro jsRem_nonneg) simp_all
  have idx: "jsRem (note_pad pad mod 12 + row pad * 2) 8 = (note_pad pad mod 12 + row pad * 2) mod 8"
    using assms nn by (intro jsRem_nonneg) simp_all
  have len: "int (length synthwaveColors) = 8"
    by (simp add: synthwaveColors_def)
  show "getPadColor ''rainbow'' pad =
       Some (''hsl('' @ numberToString ((note_pad pad mod 12 * 30 + row pad * 15) mod 360) @ '', 85%, 65%)'')"
    by (simp add: getPadColor_def RAINBOW_def Let_def nv hue)
  show "getPadColor ''music-theory'' pad =
       Some (if note_pad pad mod 12 = 0 then ''#FF5252''
             else if note_pad pad mod 12 = 5 then ''#448AFF''
             else if note_pad pad mod 12 = 7 then ''#69F0AE''
             else ''#9E9E9E'')"
    by (simp add: getPadColor_def RAINBOW_def MUSIC_THEORY_def Let_def nv)
  show "getPadColor ''checkerboard'' pad =
       Some (if (row pad + col pad) mod 2 = 0 then ''#212121'' else ''#616161'')"
    by (simp add: getPadColor_def RAINBOW_def MUSIC_THEORY_def CHECKERBOARD_def Let_def chk)
  show "getPadColor ''neon-glow'' pad =
       Some (''hsl('' @ numberToString ((note_pad pad mod 12 * 30) mod 360) @ '', 100%, 65%)'')"
    by (simp add: getPadColor_def RAINBOW_def MUSIC_THEORY_def CHECKERBOARD_def NEON_GLOW_def
        Let_def nv neon)
  show "getPadColor ''mpc'' pad = Some ''#424242''"
    by (simp add: getPadColor_def RAINBOW_def MUSIC_THEORY_def CHECKERBOARD_def NEON_GLOW_def
        MPC_def Let_def)
  show "getPadColor ''midnight'' pad =
       Some (synthwaveColors ! nat ((note_pad pad mod 12 + row pad * 2) mod 8))"
    by (simp add: getPadColor_def RAINBOW_def MUSIC_THEORY_def CHECKERBOARD_def NEON_GLOW_def
        MPC_def MIDNIGHT_def Let_def nv idx len)
qed

text \<open>
  Claim C7. For every pad of a state reached from start-up, \<open>getPadColor\<close> gives, for
  each of the six schemes: rainbow, the HSL colour of hue
  \<open>((note mod 12) * 30 + row * 15) mod 360\<close> at 85% and 65%; music-theory, \<open>#FF5252\<close>,
  \<open>#448AFF\<close>, \<open>#69F0AE\<close> for \<open>note mod 12\<close> equal to 0, 5, 7 and \<open>#9E9E9E\<close>
  otherwise, whatever the row and column; checkerboard, \<open>#212121\<close> when \<open>row + col\<close> is
  even and \<open>#616161\<close> when odd; neon-glow, the HSL colour of hue
  \<open>((note mod 12) * 30) mod 360\<close> at 100% and 65%; mpc, \<open>#424242\<close>; midnight, the entry
  \<open>((note mod 12) + row * 2) mod 8\<close> of the palette of eight colours.
\<close>

theorem getPadColor_rules:
  assumes "pad \<in> set (pads (run (onMount created midiSupported initialState) events))"
  shows "getPadColor ''rainbow'' pad =
       Some (''hsl('' @ numberToString ((note_pad pad mod 12 * 30 + row pad * 15) mod 360) @ '', 85%, 65%)'') \<and>
     getPadColor ''music-theory'' pad =
       Some (if note_pad pad mod 12 = 0 then ''#FF5252''
             else if note_pad pad mod 12 = 5 then ''#448AFF''
             else if note_pad pad mod 12 = 7 then ''#69F0AE''
             else ''#9E9E9E'') \<and>
     getPadColor ''checkerboard'' pad =
       Some (if (row pad + col pad) mod 2 = 0 then ''#212121'' else ''#616161'') \<and>
     getPadColor ''neon-glow'' pad =
       Some (''hsl('' @ numberToString ((note_pad pad mod 12 * 30) mod 360) @ '', 100%, 65%)'') \<and>
     getPadColor ''mpc'' pad = Some ''#424242'' \<and>
     getPadColor ''midnight'' pad =
       Some ([''#0f1e45'', ''#1a2151'', ''#4a1e9e'', ''#7b2fbe'',
              ''#e92efb'', ''#ff2a6d'', ''#1eaedb'', ''#00fff5'']
             ! nat ((note_pad pad mod 12 + row pad * 2) mod 8))"
proof -
  have "gridBuilt (run (onMount created midiSupported initialState) events)"
    by (simp add: gridBuilt_run gridBuilt_onMount)
  from gridBuilt_nonneg [OF this assms]
  have "0 \<le> note_pad pad" "0 \<le> row pad" "0 \<le> col pad"
    by simp_all
  from getPadColor_nonneg [OF this] show ?thesis
    by (simp add: synthwaveColors_def)
qed

theorem getPadColor_rules_witness:
  "pads mountedState ! 5 \<in> set (pads (run (onMount Suspended True initialState) [])) \<and>
   note_pad (pads mountedState ! 5) = 41 \<and> row (pads mountedState ! 5) = 2 \<and>
   col (pads mountedState ! 5) = 1 \<and>
   getPadColor ''rainbow'' (pads mountedState ! 5) = Some ''hsl(180, 85%, 65%)'' \<and>
   getPadColor ''music-theory'' (pads mountedState ! 5) = Some ''#448AFF'' \<and>
   getPadColor ''checkerboard'' (pads mountedState ! 5) = Some ''#616161'' \<and>
   getPadColor ''neon-glow'' (pads mountedState ! 5) = Some ''hsl(150, 100%, 65%)'' \<and>
   getPadColor ''mpc'' (pads mountedState ! 5) = Some ''#424242'' \<and>
   getPadColor ''midnight'' (pads mountedState ! 5) = Some ''#1a2151''"
proof -
  have m: "pads mountedState ! 5 \<in> set (pads (run (onMount Suspended True initialState) []))"
    by code_simp
  have f: "note_pad (pads mountedState ! 5) = 41" "row (pads mountedState ! 5) = 2"
    "col (pads mountedState ! 5) = 1"
    by code_simp+
  have d1: "natToString 180 = ''180''" and d2: "natToString 150 = ''150''"
    by code_simp+
  from getPadColor_rules [OF m] m f d1 d2 show ?thesis
    by (simp add: numberToString_def)
qed

subsection \<open>Changing the grid size\<close>

lemma bank_foldl_lookup:
  assumes "\<forall>p \<in> set ps. \<forall>q \<in> set ps. soundFile p = soundFile q \<longrightarrow> note_pad p = note_pad q"
    and "p \<in> set ps"
  shows "foldl (\<lambda>b pad. b(soundFile pad \<mapsto> SineTone (note_pad pad))) bank ps (soundFile p)
           = Some (SineTone (note_pad p))"
  using assms
proof (induction ps rule: rev_induct)
  case Nil
  then show ?case by simp
next
  case (snoc x xs)
  have last: "x \<in> set (xs @ [x])"
    by simp
  show ?case
  proof (cases "soundFile p = soundFile x")
    case True
    from snoc.prems(1) [rule_format, OF snoc.prems(2) last True]
    have "note_pad p = note_pad x" .
    with True show ?thesis
      by simp
  next
    case False
    then have "p \<noteq> x"
      by auto
    with snoc.prems(2) have mem: "p \<in> set xs"
      by simp
    have "\<forall>p \<in> set xs. \<forall>q \<in> set xs. soundFile p = soundFile q \<longrightarrow> note_pad p = note_pad q"
    proof (intro ballI impI)
      fix a b
      assume "a \<in> set xs" "b \<in> set xs" and e: "soundFile a = soundFile b"
      then have "a \<in> set (xs @ [x])" "b \<in> set (xs @ [x])"
        by simp_all
      from snoc.prems(1) [rule_format, OF this e] show "note_pad a = note_pad b" .
    qed
    from snoc.IH [OF this mem] False show ?thesis
      by simp
  qed
qed

lemma initializePads_defaults:
  assumes "p \<in> set (pads (initializePads s))"
  shows "\<not> hasCustomSound p \<and> soundFile p = ''default-sound-'' @ numberToString (id_pad p) \<and>
     0 \<le> id_pad p \<and> note_pad p = 36 + id_pad p \<and> \<not> isPressed p \<and> \<not> isActive p"
proof -
  let ?R = "rows (GRID_DIMENSIONS (selectedGridSize s))" and ?C = "cols (GRID_DIMENSIONS (selectedGridSize s))"
  from assms obtain q where q: "q \<in> set (builtPads ?R ?C)"
    and p: "p = q\<lparr>color := getPadColor (selectedColorScheme s) q\<rparr>"
    by (auto simp: pads_initializePads)
  have RC: "0 \<le> ?R" "0 < ?C"
    using GRID_DIMENSIONS_pos [of "selectedGridSize s"] by simp_all
  from builtPads_member [OF RC q] obtain r c
    where b: "0 \<le> r" "r < ?R" "0 \<le> c" "c < ?C" and n: "q = newPad ?R ?C r c"
    by blast
  from b RC have "0 \<le> (?R - 1 - r) * ?C"
    by simp
  with b show ?thesis
    by (simp add: p n)
qed

text \<open>
  Claim C9. After \<open>handleGridSizeChange\<close>, in a component whose audio context exists,
  every pad of the new collection has \<open>hasCustomSound\<close> false and the sound id
  \<open>default-sound-\<close> followed by its id, the bank holds under that id the tone
  synthesized for the pad's note, and the map of custom sound names is empty. The
  collection has \<open>rows * cols\<close> pads for the selected size.
\<close>

theorem handleGridSizeChange_resets:
  "audioContext s \<Longrightarrow>
     (\<forall>p \<in> set (pads (handleGridSizeChange s v)).
        \<not> hasCustomSound p \<and>
        soundFile p = ''default-sound-'' @ numberToString (id_pad p) \<and>
        audioBuffers (handleGridSizeChange s v) (soundFile p) = Some (SineTone (note_pad p))) \<and>
     customSoundNames (handleGridSizeChange s v) = Map.empty \<and>
     length (pads (handleGridSizeChange s v)) = nat (rows (GRID_DIMENSIONS v) * cols (GRID_DIMENSIONS v)) \<and>
     selectedGridSize (handleGridSizeChange s v) = v"
proof -
  assume ctx: "audioContext s"
  define s1 where "s1 = initializePads (s\<lparr>selectedGridSize := v\<rparr>)"
  define bank where
    "bank = foldl (\<lambda>b pad. b(soundFile pad \<mapsto> SineTone (note_pad pad))) (audioBuffers s1) (pads s1)"
  have ctx1: "audioContext s1"
    using ctx by (simp add: s1_def)
  have ps: "pads (handleGridSizeChange s v) = pads s1"
    by (simp add: handleGridSizeChange_def Let_def s1_def)
  have bk: "audioBuffers (handleGridSizeChange s v) = bank"
    using ctx1 by (simp add: handleGridSizeChange_def Let_def s1_def [symmetric] loadDefaultSounds_eq bank_def)
  have dflt: "\<not> hasCustomSound p \<and> soundFile p = ''default-sound-'' @ numberToString (id_pad p) \<and>
     0 \<le> id_pad p \<and> note_pad p = 36 + id_pad p" if "p \<in> set (pads s1)" for p
    using initializePads_defaults [of p "s\<lparr>selectedGridSize := v\<rparr>"] that by (simp add: s1_def)
  have same: "\<forall>p \<in> set (pads s1). \<forall>q \<in> set (pads s1). soundFile p = soundFile q \<longrightarrow> note_pad p = note_pad q"
  proof (intro ballI impI)
    fix p q assume p: "p \<in> set (pads s1)" and q: "q \<in> set (pads s1)" and e: "soundFile p = soundFile q"
    from dflt [OF p] dflt [OF q] e have "numberToString (id_pad p) = numberToString (id_pad q)"
      by simp
    with dflt [OF p] dflt [OF q] have "id_pad p = id_pad q"
      by (intro numberToString_inj) simp_all
    with dflt [OF p] dflt [OF q] show "note_pad p = note_pad q"
      by simp
  qed
  have look: "bank (soundFile p) = Some (SineTone (note_pad p))" if "p \<in> set (pads s1)" for p
    unfolding bank_def using same that by (rule bank_foldl_lookup)
  have names: "customSoundNames (handleGridSizeChange s v) = Map.empty"
    by (simp add: handleGridSizeChange_def Let_def)
  have len: "length (pads s1) = nat (rows (GRID_DIMENSIONS v) * cols (GRID_DIMENSIONS v))"
    using GRID_DIMENSIONS_pos [of v]
    by (simp add: s1_def pads_initializePads length_builtPads)
  have sz: "selectedGridSize (handleGridSizeChange s v) = v"
    by (simp add: handleGridSizeChange_def Let_def)
  from dflt look names len sz show ?thesis
    by (simp add: ps bk)
qed

lemma audioContext_mountedState: "audioContext mountedState"
  by (simp add: mountedState_def onMount_def Let_def)

lemma pads_handleGridSizeChange:
  "pads (handleGridSizeChange s v) =
     map (\<lambda>pad. pad\<lparr>color := getPadColor (selectedColorScheme s) pad\<rparr>)
       (builtPads (rows (GRID_DIMENSIONS v)) (cols (GRID_DIMENSIONS v)))"
  by (simp add: handleGridSizeChange_def Let_def pads_initializePads)

theorem handleGridSizeChange_resets_witness:
  "audioContext mountedState \<and>
   pads (handleGridSizeChange mountedState GRID_3X3) ! 2
     \<in> set (pads (handleGridSizeChange mountedState GRID_3X3)) \<and>
   \<not> hasCustomSound (pads (handleGridSizeChange mountedState GRID_3X3) ! 2) \<and>
   soundFile (pads (handleGridSizeChange mountedState GRID_3X3) ! 2) = ''default-sound-2'' \<and>
   audioBuffers (handleGridSizeChange mountedState GRID_3X3) ''default-sound-2'' = Some (SineTone 38) \<and>
   customSoundNames (handleGridSizeChange mountedState GRID_3X3) = Map.empty"
proof -
  define s' where "s' = handleGridSizeChange mountedState GRID_3X3"
  note t = handleGridSizeChange_resets [OF audioContext_mountedState, of GRID_3X3, folded s'_def]
  from t have len: "length (pads s') = 9"
    by simp
  then have m: "pads s' ! 2 \<in> set (pads s')"
    by simp
  have "builtPads 3 3 ! nat ((3 - 1 - 2) * 3 + 2) = newPad 3 3 2 2"
    by (rule builtPads_nth) simp_all
  then have "builtPads 3 3 ! 2 = newPad 3 3 2 2"
    by simp
  with len have i: "id_pad (pads s' ! 2) = 2" "note_pad (pads s' ! 2) = 38"
    by (simp_all add: s'_def pads_handleGridSizeChange length_builtPads)
  have d: "natToString 2 = ''2''"
    by code_simp
  from t have every: "\<forall>p \<in> set (pads s').
        \<not> hasCustomSound p \<and>
        soundFile p = ''default-sound-'' @ numberToString (id_pad p) \<and>
        audioBuffers s' (soundFile p) = Some (SineTone (note_pad p))"
    by (rule conjunct1)
  from bspec [OF every m]
  have a: "\<not> hasCustomSound (pads s' ! 2)"
    and b: "soundFile (pads s' ! 2) = ''default-sound-'' @ numberToString (id_pad (pads s' ! 2))"
    and e: "audioBuffers s' (soundFile (pads s' ! 2)) = Some (SineTone (note_pad (pads s' ! 2)))"
    by blast+
  from b i d have b': "soundFile (pads s' ! 2) = ''default-sound-2''"
    by (simp add: numberToString_def)
  from e have e': "audioBuffers s' ''default-sound-2'' = Some (SineTone 38)"
    unfolding b' i .
  from t have names: "customSoundNames s' = Map.empty"
    by simp
  show ?thesis
    unfolding s'_def [symmetric] using audioContext_mountedState m a b' e' names by blast
qed

subsection \<open>Registering a custom sound\<close>

lemma audioContext_step [simp]: "audioContext (step s e) = audioContext s"
proof (cases e)
  case (MidiMessage data)
  have "audioContext (handleMIDIMessage s data) = audioContext s"
    by (induction s data rule: handleMIDIMessage.induct)
       (simp_all add: triggerPad_def releasePad_def initAudio_def playSound_def Let_def split: option.splits)
  with MidiMessage show ?thesis by simp
next
  case GlobalUp
  have "audioContext (handleGlobalMouseUp s) = audioContext s"
    unfolding handleGlobalMouseUp_def
    by (rule foldl_release_inv [where Q = "\<lambda>s'. audioContext s' = audioContext s"])
       (simp_all add: releasePad_def Let_def)
  with GlobalUp show ?thesis by simp
qed (simp_all add: triggerPad_def initAudio_def playSound_def Let_def handleColorSchemeChange_def
       applyColorScheme_def handleGridSizeChange_def loadCustomSound_def timerFires_def
       decayTimeout_def split: option.splits sum.splits list.splits)

lemma customLoads_snoc:
  "customLoads (es @ [e]) = customLoads es @ customLoads [e]"
proof (induction es)
  case Nil
  show ?case by simp
next
  case (Cons a es)
  then show ?case
    by (cases a) simp_all
qed

lemma bank_foldl_keys:
  "foldl (\<lambda>b pad. b(soundFile pad \<mapsto> SineTone (note_pad pad))) bank ps key \<noteq> None \<Longrightarrow>
     bank key \<noteq> None \<or> key \<in> soundFile ` set ps"
proof (induction ps rule: rev_induct)
  case Nil
  then show ?case by simp
next
  case (snoc x xs)
  show ?case
  proof (cases "key = soundFile x")
    case True
    then show ?thesis by simp
  next
    case False
    then have last: "foldl (\<lambda>b pad. b(soundFile pad \<mapsto> SineTone (note_pad pad))) bank (xs @ [x]) key
        = foldl (\<lambda>b pad. b(soundFile pad \<mapsto> SineTone (note_pad pad))) bank xs key"
      by simp
    from snoc.prems
    have "foldl (\<lambda>b pad. b(soundFile pad \<mapsto> SineTone (note_pad pad))) bank xs key \<noteq> None"
      unfolding last .
    from snoc.IH [OF this] show ?thesis
      by auto
  qed
qed

lemma bank_loadDefaultSounds_initializePads:
  assumes "audioBuffers (loadDefaultSounds (initializePads s) (pads (initializePads s))) key \<noteq> None"
  shows "audioBuffers s key \<noteq> None \<or> (\<exists>cs. key = ''default-sound-'' @ cs)"
proof (cases "audioContext s")
  case True
  with assms
  have "foldl (\<lambda>b pad. b(soundFile pad \<mapsto> SineTone (note_pad pad))) (audioBuffers s)
          (pads (initializePads s)) key \<noteq> None"
    by (simp add: loadDefaultSounds_eq)
  from bank_foldl_keys [OF this] show ?thesis
  proof
    assume "audioBuffers s key \<noteq> None"
    then show ?thesis by simp
  next
    assume "key \<in> soundFile ` set (pads (initializePads s))"
    then obtain p where "p \<in> set (pads (initializePads s))" and k: "key = soundFile p"
      by auto
    from initializePads_defaults [OF this(1)] k
    have "key = ''default-sound-'' @ numberToString (id_pad p)"
      by simp
    then show ?thesis by blast
  qed
next
  case False
  with assms show ?thesis
    by (simp add: loadDefaultSounds_eq)
qed

lemma audioBuffers_handleMIDIMessage [simp]:
  "audioBuffers (handleMIDIMessage s data) = audioBuffers s"
  by (induction s data rule: handleMIDIMessage.induct) simp_all

lemma audioBuffers_handleGlobalMouseUp [simp]:
  "audioBuffers (handleGlobalMouseUp s) = audioBuffers s"
  unfolding handleGlobalMouseUp_def
  by (rule foldl_release_inv [where Q = "\<lambda>s'. audioBuffers s' = audioBuffers s"]) simp_all

lemma bank_step:
  assumes "audioBuffers (step s e) key \<noteq> None"
  shows "audioBuffers s key \<noteq> None \<or> (\<exists>cs. key = ''default-sound-'' @ cs) \<or>
     (\<exists>pt \<in> set (customLoads [e]). key = customSoundId (fst pt) (snd pt))"
proof (cases e)
  case (GridSizeChange v)
  with assms
  have "audioBuffers (loadDefaultSounds (initializePads (s\<lparr>selectedGridSize := v\<rparr>))
          (pads (initializePads (s\<lparr>selectedGridSize := v\<rparr>)))) key \<noteq> None"
    by (simp add: handleGridSizeChange_def Let_def)
  from bank_loadDefaultSounds_initializePads [OF this]
  have "audioBuffers s key \<noteq> None \<or> (\<exists>cs. key = ''default-sound-'' @ cs)"
    by simp
  then show ?thesis
    by blast
next
  case (CustomSound f padId now)
  show ?thesis
  proof (cases "key = customSoundId padId now")
    case True
    with CustomSound show ?thesis by simp
  next
    case False
    with assms CustomSound have "audioBuffers s key \<noteq> None"
      by (simp add: loadCustomSound_def Let_def split: if_splits sum.splits)
    then show ?thesis by simp
  qed
next
  case (PadDown k)
  with assms show ?thesis
    by (simp split: if_splits)
next
  case (MidiMessage data)
  with assms show ?thesis by simp
next
  case GlobalUp
  with assms show ?thesis by simp
next
  case (ColorSchemeChange v)
  with assms show ?thesis
    by (simp add: handleColorSchemeChange_def applyColorScheme_def)
next
  case TimerFires
  with assms show ?thesis
    by (simp add: timerFires_def decayTimeout_def split: list.splits if_splits)
next
  case ResumeResolved
  with assms show ?thesis by simp
next
  case MidiRejected
  with assms show ?thesis by simp
qed

lemma bank_onMount:
  assumes "audioBuffers (onMount created midiSupported initialState) key \<noteq> None"
  shows "\<exists>cs. key = ''default-sound-'' @ cs"
proof -
  define s2 where "s2 = (if midiSupported
      then initialState\<lparr>audioContext := True, contextState := created\<rparr>
      else initialState\<lparr>audioContext := True, contextState := created,
             error := Some ''WebMIDI is not supported in your browser. Try using Chrome or Edge.''\<rparr>)"
  have e: "audioBuffers s2 key = None"
    by (simp add: s2_def initialState_def)
  from assms have "audioBuffers (loadDefaultSounds (initializePads s2) (pads (initializePads s2))) key \<noteq> None"
    by (simp add: onMount_def Let_def s2_def)
  from bank_loadDefaultSounds_initializePads [OF this] e show ?thesis
    by simp
qed

lemma bank_run:
  assumes "audioBuffers (run (onMount created midiSupported initialState) es) key \<noteq> None"
  shows "(\<exists>cs. key = ''default-sound-'' @ cs) \<or>
     (\<exists>pt \<in> set (customLoads es). key = customSoundId (fst pt) (snd pt))"
  using assms
proof (induction es rule: rev_induct)
  case Nil
  then show ?case
    using bank_onMount [of created midiSupported key] by (simp add: run_def)
next
  case (snoc e es)
  then have "audioBuffers (step (run (onMount created midiSupported initialState) es) e) key \<noteq> None"
    by (simp add: run_def)
  from bank_step [OF this] show ?case
  proof (elim disjE)
    assume "audioBuffers (run (onMount created midiSupported initialState) es) key \<noteq> None"
    from snoc.IH [OF this] show ?thesis
      by (auto simp: customLoads_snoc)
  next
    assume "\<exists>cs. key = ''default-sound-'' @ cs"
    then show ?thesis by simp
  next
    assume "\<exists>pt \<in> set (customLoads [e]). key = customSoundId (fst pt) (snd pt)"
    then show ?thesis
      by (auto simp: customLoads_snoc)
  qed
qed

lemma customSoundId_fresh:
  assumes "(padId, now) \<notin> set (customLoads es)"
  shows "audioBuffers (run (onMount created midiSupported initialState) es) (customSoundId padId now) = None"
proof (rule ccontr)
  assume "audioBuffers (run (onMount created midiSupported initialState) es) (customSoundId padId now) \<noteq> None"
  from bank_run [OF this] show False
  proof
    assume "\<exists>cs. customSoundId padId now = ''default-sound-'' @ cs"
    with customSoundId_not_default show False
      by blast
  next
    assume "\<exists>pt \<in> set (customLoads es). customSoundId padId now = customSoundId (fst pt) (snd pt)"
    then obtain pt where m: "pt \<in> set (customLoads es)"
      and e: "customSoundId padId now = customSoundId (fst pt) (snd pt)"
      by blast
    from customSoundId_inj_all [OF e] have "pt = (padId, now)"
      by (cases pt) simp
    with m assms show False
      by simp
  qed
qed

text \<open>
  Claim C8, amended. When the audio context exists and decoding succeeds: if \<open>padId\<close>
  is the id of a pad of the current grid, found at index \<open>k\<close>, \<open>loadCustomSound\<close>
  resolves to true, stores the decoded buffer under the id
  \<open>custom-sound-<padId>-<Date.now()>\<close>, leaves every other entry of the bank alone, and
  rebinds that pad's \<open>soundFile\<close> to the id with \<open>hasCustomSound\<close> true; if no pad has
  the id, it resolves to true and changes nothing. In every state reached from start-up
  the generated id is the key of no entry of the bank, unless an earlier load had the
  same pad id and the same \<open>Date.now()\<close>: it is distinct from every id present before
  the call. The generated id differs from every default id, and from the id generated for
  any other pad or any other timestamp.
\<close>

theorem loadCustomSound_success:
  "audioContext s \<and> decodeResult file = Inr buffer \<Longrightarrow>
     (findIndex (\<lambda>pad. id_pad pad = padId) (pads s) = int k \<longrightarrow>
        id_pad (pads s ! k) = padId \<and>
        snd (loadCustomSound s file padId now) = Some True \<and>
        audioBuffers (fst (loadCustomSound s file padId now)) (customSoundId padId now) = Some buffer \<and>
        (\<forall>key. key \<noteq> customSoundId padId now \<longrightarrow>
           audioBuffers (fst (loadCustomSound s file padId now)) key = audioBuffers s key) \<and>
        pads (fst (loadCustomSound s file padId now)) =
          (pads s)[k := (pads s ! k)\<lparr>soundFile := customSoundId padId now, hasCustomSound := True\<rparr>] \<and>
        soundFile (pads (fst (loadCustomSound s file padId now)) ! k) = customSoundId padId now \<and>
        hasCustomSound (pads (fst (loadCustomSound s file padId now)) ! k)) \<and>
     (findIndex (\<lambda>pad. id_pad pad = padId) (pads s) < 0 \<longrightarrow>
        loadCustomSound s file padId now = (s, Some True)) \<and>
     customSoundId padId now \<noteq> ''default-sound-'' @ numberToString i \<and>
     (s = run (onMount created midiSupported initialState) events \<and>
      (padId, now) \<notin> set (customLoads events) \<longrightarrow>
        audioBuffers s (customSoundId padId now) = None) \<and>
     (customSoundId padId now = customSoundId padId' now' \<longrightarrow> padId = padId' \<and> now = now')"
proof (intro conjI impI)
  assume a: "audioContext s \<and> decodeResult file = Inr buffer"
  {
    assume f: "findIndex (\<lambda>pad. id_pad pad = padId) (pads s) = int k"
    then have k: "k < length (pads s)"
      using findIndex_bounds [of "\<lambda>pad. id_pad pad = padId" "pads s"] by simp
    show "id_pad (pads s ! k) = padId"
      using findIndex_nth [of "\<lambda>pad. id_pad pad = padId" "pads s"] f by simp
    show "snd (loadCustomSound s file padId now) = Some True"
      using a f by (simp add: loadCustomSound_def Let_def)
    show "audioBuffers (fst (loadCustomSound s file padId now)) (customSoundId padId now) = Some buffer"
      using a f by (simp add: loadCustomSound_def Let_def)
    show "\<forall>key. key \<noteq> customSoundId padId now \<longrightarrow>
           audioBuffers (fst (loadCustomSound s file padId now)) key = audioBuffers s key"
      using a f by (simp add: loadCustomSound_def Let_def)
    show p: "pads (fst (loadCustomSound s file padId now)) =
          (pads s)[k := (pads s ! k)\<lparr>soundFile := customSoundId padId now, hasCustomSound := True\<rparr>]"
      using a f by (simp add: loadCustomSound_def Let_def)
    show "soundFile (pads (fst (loadCustomSound s file padId now)) ! k) = customSoundId padId now"
      using k by (simp add: p)
    show "hasCustomSound (pads (fst (loadCustomSound s file padId now)) ! k)"
      using k by (simp add: p)
  }
  {
    assume "findIndex (\<lambda>pad. id_pad pad = padId) (pads s) < 0"
    with a show "loadCustomSound s file padId now = (s, Some True)"
      by (simp add: loadCustomSound_def Let_def)
  }
  show "customSoundId padId now \<noteq> ''default-sound-'' @ numberToString i"
    by (rule customSoundId_not_default)
  {
    assume "s = run (onMount created midiSupported initialState) events \<and>
      (padId, now) \<notin> set (customLoads events)"
    then show "audioBuffers s (customSoundId padId now) = None"
      by (simp add: customSoundId_fresh)
  }
  {
    assume "customSoundId padId now = customSoundId padId' now'"
    then have e: "padId = padId' \<and> now = now'"
      by (rule customSoundId_inj_all)
    from e show "padId = padId'" by simp
    from e show "now = now'" by simp
  }
qed

lemma audioContext_run: "audioContext (run s es) = audioContext s"
  by (induction es arbitrary: s) (simp_all add: run_def)

lemma audioContext_onMount: "audioContext (onMount created midiSupported s)"
  by (simp add: onMount_def Let_def)

theorem loadCustomSound_success_witness:
  "audioContext mountedState \<and>
   decodeResult \<lparr>fileName = ''kick.wav'', decodeResult = Inr (Decoded 1)\<rparr> = Inr (Decoded 1) \<and>
   findIndex (\<lambda>pad. id_pad pad = 2) (pads mountedState) = int 2 \<and>
   snd (loadCustomSound mountedState \<lparr>fileName = ''kick.wav'', decodeResult = Inr (Decoded 1)\<rparr> 2 1000) = Some True \<and>
   audioBuffers (fst (loadCustomSound mountedState \<lparr>fileName = ''kick.wav'', decodeResult = Inr (Decoded 1)\<rparr> 2 1000))
     (customSoundId 2 1000) = Some (Decoded 1) \<and>
   soundFile (pads (fst (loadCustomSound mountedState \<lparr>fileName = ''kick.wav'', decodeResult = Inr (Decoded 1)\<rparr> 2 1000)) ! 2)
     = customSoundId 2 1000 \<and>
   hasCustomSound (pads (fst (loadCustomSound mountedState \<lparr>fileName = ''kick.wav'', decodeResult = Inr (Decoded 1)\<rparr> 2 1000)) ! 2) \<and>
   findIndex (\<lambda>pad. id_pad pad = 99) (pads mountedState) < 0 \<and>
   loadCustomSound mountedState \<lparr>fileName = ''kick.wav'', decodeResult = Inr (Decoded 1)\<rparr> 99 1000
     = (mountedState, Some True) \<and>
   customSoundId 2 1000 \<noteq> customSoundId 2 1001 \<and>
   audioContext (run (onMount Suspended True initialState)
      [CustomSound \<lparr>fileName = ''kick.wav'', decodeResult = Inr (Decoded 1)\<rparr> 2 999]) \<and>
   (2, 1000) \<notin> set (customLoads
      [CustomSound \<lparr>fileName = ''kick.wav'', decodeResult = Inr (Decoded 1)\<rparr> 2 999]) \<and>
   audioBuffers (run (onMount Suspended True initialState)
      [CustomSound \<lparr>fileName = ''kick.wav'', decodeResult = Inr (Decoded 1)\<rparr> 2 999])
     (customSoundId 2 1000) = None"
proof -
  define kick where "kick = \<lparr>fileName = ''kick.wav'', decodeResult = Inr (Decoded 1)\<rparr>"
  define earlier where "earlier = run (onMount Suspended True initialState) [CustomSound kick 2 999]"
  have c: "audioContext mountedState \<and> decodeResult kick = Inr (Decoded 1)"
    by (simp add: audioContext_mountedState kick_def)
  have ce: "audioContext earlier \<and> decodeResult kick = Inr (Decoded 1)"
    by (simp add: earlier_def audioContext_run audioContext_onMount kick_def)
  have f2: "findIndex (\<lambda>pad. id_pad pad = 2) (pads mountedState) = int 2"
    by code_simp
  have f99: "findIndex (\<lambda>pad. id_pad pad = 99) (pads mountedState) < 0"
    by code_simp
  have other: "(2, 1000) \<notin> set (customLoads [CustomSound kick 2 999])"
    by simp
  note hit = loadCustomSound_success [OF c, where padId = 2 and k = 2 and now = 1000
      and padId' = 2 and now' = 1001]
  note miss = loadCustomSound_success [OF c, where padId = 99 and now = 1000]
  note fresh = loadCustomSound_success [OF ce, where padId = 2 and now = 1000
      and created = Suspended and midiSupported = True and events = "[CustomSound kick 2 999]"]
  from hit f2
  have h: "snd (loadCustomSound mountedState kick 2 1000) = Some True \<and>
     audioBuffers (fst (loadCustomSound mountedState kick 2 1000)) (customSoundId 2 1000) = Some (Decoded 1) \<and>
     soundFile (pads (fst (loadCustomSound mountedState kick 2 1000)) ! 2) = customSoundId 2 1000 \<and>
     hasCustomSound (pads (fst (loadCustomSound mountedState kick 2 1000)) ! 2)"
    by blast
  from miss f99 have m: "loadCustomSound mountedState kick 99 1000 = (mountedState, Some True)"
    by blast
  from hit have d: "customSoundId 2 1000 \<noteq> customSoundId 2 1001"
    by auto
  from fresh other have n: "audioBuffers earlier (customSoundId 2 1000) = None"
    unfolding earlier_def by blast
  from ce have a: "audioContext earlier"
    by simp
  show ?thesis
    unfolding kick_def [symmetric] earlier_def [symmetric] using c f2 h f99 m d a other n by blast
qed

text \<open>
  Claim C8 as stated fails at two inputs. After the grid was changed to 3 by 3, a file
  that decodes successfully for pad id 12 resolves to true and stores nothing. And two
  successful loads for pad 0 whose \<open>Date.now()\<close> is the same millisecond use the same
  id: the id of the second load is in the bank before the call.
\<close>

theorem loadCustomSound_counterexample:
  "decodeResult \<lparr>fileName = ''kick.wav'', decodeResult = Inr (Decoded 1)\<rparr> = Inr (Decoded 1) \<and>
   loadCustomSound (run (onMount Suspended True initialState) [GridSizeChange GRID_3X3])
       \<lparr>fileName = ''kick.wav'', decodeResult = Inr (Decoded 1)\<rparr> 12 1000
     = (run (onMount Suspended True initialState) [GridSizeChange GRID_3X3], Some True) \<and>
   audioBuffers (run (onMount Suspended True initialState) [GridSizeChange GRID_3X3]) (customSoundId 12 1000)
     = None \<and>
   audioBuffers (run (onMount Suspended True initialState)
       [CustomSound \<lparr>fileName = ''kick.wav'', decodeResult = Inr (Decoded 1)\<rparr> 0 1000])
     (customSoundId 0 1000) = Some (Decoded 1) \<and>
   soundFile (pads (fst (loadCustomSound
       (run (onMount Suspended True initialState)
          [CustomSound \<lparr>fileName = ''kick.wav'', decodeResult = Inr (Decoded 1)\<rparr> 0 1000])
       \<lparr>fileName = ''snare.wav'', decodeResult = Inr (Decoded 2)\<rparr> 0 1000)) ! 0)
     = customSoundId 0 1000"
proof -
  define small where "small = run (onMount Suspended True initialState) [GridSizeChange GRID_3X3]"
  define once where "once = run (onMount Suspended True initialState)
       [CustomSound \<lparr>fileName = ''kick.wav'', decodeResult = Inr (Decoded 1)\<rparr> 0 1000]"
  have cs: "audioContext small" and co: "audioContext once"
    by (simp_all add: small_def once_def audioContext_run audioContext_onMount)
  have fs: "findIndex (\<lambda>pad. id_pad pad = 12) (pads small) = - 1"
    unfolding small_def by code_simp
  have a: "loadCustomSound small \<lparr>fileName = ''kick.wav'', decodeResult = Inr (Decoded 1)\<rparr> 12 1000
     = (small, Some True)"
    using cs fs by (simp add: loadCustomSound_def)
  have b: "audioBuffers small (customSoundId 12 1000) = None"
    unfolding small_def by code_simp
  have c: "audioBuffers once (customSoundId 0 1000) = Some (Decoded 1)"
    unfolding once_def by code_simp
  have fo: "findIndex (\<lambda>pad. id_pad pad = 0) (pads once) = 0"
    unfolding once_def by code_simp
  have lo: "0 < length (pads once)"
    unfolding once_def by code_simp
  have d: "soundFile (pads (fst (loadCustomSound once
       \<lparr>fileName = ''snare.wav'', decodeResult = Inr (Decoded 2)\<rparr> 0 1000)) ! 0) = customSoundId 0 1000"
    using co fo lo by (simp add: loadCustomSound_def Let_def)
  show ?thesis
    unfolding small_def [symmetric] once_def [symmetric] using a b c d by simp
qed

end
